theory Spec2Isabelle
  imports Complex_Main
begin

section \<open>App.vue and Sidebar.vue: the view switch\<close>

text \<open>
  The root component keeps one reactive field, \<open>currentView\<close>, initially \<open>'chat'\<close>.
  The sidebar has two buttons; each emits \<open>change-view\<close> with a fixed payload, and
  \<open>changeView\<close> stores the payload as it comes.
\<close>

record app_state =
  currentView :: string

definition app_data :: app_state where
  "app_data = \<lparr>currentView = ''chat''\<rparr>"

definition changeView :: "string \<Rightarrow> app_state \<Rightarrow> app_state" where
  "changeView view s = s\<lparr>currentView := view\<rparr>"

datatype sidebar_button = ChatButton | DocumentsButton

fun sidebar_emit :: "sidebar_button \<Rightarrow> string" where
  "sidebar_emit ChatButton = ''chat''"
| "sidebar_emit DocumentsButton = ''documents''"

text \<open>A click on a sidebar button: the emitted payload reaches \<open>changeView\<close>.\<close>

definition app_click :: "sidebar_button \<Rightarrow> app_state \<Rightarrow> app_state" where
  "app_click b s = changeView (sidebar_emit b) s"

fun app_run :: "sidebar_button list \<Rightarrow> app_state \<Rightarrow> app_state" where
  "app_run [] s = s"
| "app_run (b # bs) s = app_run bs (app_click b s)"

text \<open>The two \<open>v-if\<close> conditions of the template of App.\<close>

definition chat_rendered :: "app_state \<Rightarrow> bool" where
  "chat_rendered s = (currentView s = ''chat'')"

definition documents_rendered :: "app_state \<Rightarrow> bool" where
  "documents_rendered s = (currentView s = ''documents'')"

definition view_ok :: "app_state \<Rightarrow> bool" where
  "view_ok s = (currentView s = ''chat'' \<or> currentView s = ''documents'')"

section \<open>JavaScript strings\<close>

text \<open>
  A JavaScript string is a sequence of UTF-16 code units. The model takes \<open>string\<close>, whose
  characters are the code units below 256 (ASCII and Latin-1); every literal of the two
  components fits there. The accented letters of the Spanish messages are written by code.
\<close>

definition a_acute :: char where "a_acute = CHR 0xE1"
definition e_acute :: char where "e_acute = CHR 0xE9"
definition o_acute :: char where "o_acute = CHR 0xF3"
definition u_acute :: char where "u_acute = CHR 0xFA"
definition n_tilde :: char where "n_tilde = CHR 0xF1"
definition inv_excl :: char where "inv_excl = CHR 0xA1"
definition inv_quest :: char where "inv_quest = CHR 0xBF"

text \<open>
  \<open>String.prototype.toLowerCase\<close> on code units below 256: the letters A to Z and the
  Latin-1 capitals 0xC0 to 0xDE (the multiplication sign 0xD7 apart) move up by 32.
\<close>

definition toLowerCase_char :: "char \<Rightarrow> char" where
  "toLowerCase_char c =
     (let n = (of_char c :: nat)
      in if (65 \<le> n \<and> n \<le> 90) \<or> (192 \<le> n \<and> n \<le> 222 \<and> n \<noteq> 215)
         then char_of (n + 32) else c)"

definition toLowerCase :: "string \<Rightarrow> string" where
  "toLowerCase s = map toLowerCase_char s"

text \<open>
  \<open>s.split(sep)\<close> for a separator of one code unit: the pieces between the separators,
  in order; the array is never empty (\<open>''.split('.')\<close> is \<open>['']\<close>).
\<close>

fun split_js :: "char \<Rightarrow> string \<Rightarrow> string list" where
  "split_js sep [] = [[]]"
| "split_js sep (c # cs) =
     (if c = sep then [] # split_js sep cs
      else (case split_js sep cs of
              [] \<Rightarrow> [[c]]
            | piece # pieces \<Rightarrow> (c # piece) # pieces))"

text \<open>\<open>Array.prototype.pop\<close>: the last element, \<open>undefined\<close> (here \<open>None\<close>) on an empty array.\<close>

definition pop :: "'a list \<Rightarrow> 'a option" where
  "pop xs = (if xs = [] then None else Some (last xs))"

definition endsWith :: "string \<Rightarrow> string \<Rightarrow> bool" where
  "endsWith s suffix_str =
     (length suffix_str \<le> length s \<and> drop (length s - length suffix_str) s = suffix_str)"

text \<open>
  \<open>String.prototype.trim\<close> removes white space and line terminators at both ends; below
  256 these are tab, line feed, vertical tab, form feed, carriage return, space and the
  no-break space 0xA0.
\<close>

definition is_white_space :: "char \<Rightarrow> bool" where
  "is_white_space c =
     (let n = (of_char c :: nat) in (9 \<le> n \<and> n \<le> 13) \<or> n = 32 \<or> n = 160)"

definition trim :: "string \<Rightarrow> string" where
  "trim s = rev (dropWhile is_white_space (rev (dropWhile is_white_space s)))"

text \<open>A non-negative integer inside a template literal: its decimal digits.\<close>

fun show_nat :: "nat \<Rightarrow> string" where
  "show_nat n =
     (if n < 10 then [char_of (48 + n)]
      else show_nat (n div 10) @ [char_of (48 + n mod 10)])"

declare show_nat.simps [simp del]

text \<open>
  \<open>x.toFixed(1)\<close>, for the values where the digits do not depend on the rounding of binary
  floating point: a percentage between 0 and 100 with at most one decimal. There the
  result is the integer part, a point and the one decimal. For every other value the model
  gives no result; where a property depends on the format, the format is a parameter.
\<close>

definition toFixed1 :: "rat \<Rightarrow> string option" where
  "toFixed1 x =
     (if 0 \<le> x \<and> x \<le> 100 \<and> of_int \<lfloor>x * 10\<rfloor> = x * 10
      then Some (show_nat (nat \<lfloor>x * 10\<rfloor> div 10) @ ''.'' @ show_nat (nat \<lfloor>x * 10\<rfloor> mod 10))
      else None)"

text \<open>
  \<open>a || b\<close> on a value that is a string or absent: the empty string and \<open>undefined\<close> are
  falsy.
\<close>

definition truthy :: "string option \<Rightarrow> bool" where
  "truthy v = (case v of None \<Rightarrow> False | Some t \<Rightarrow> t \<noteq> [])"

definition or_else :: "string option \<Rightarrow> string \<Rightarrow> string" where
  "or_else v fallback = (case v of None \<Rightarrow> fallback | Some t \<Rightarrow> if t \<noteq> [] then t else fallback)"

type_synonym time = nat

text \<open>
  What \<open>catch (error)\<close> receives from axios: \<open>error.response\<close> is present when the server
  answered with an error status, \<open>error.code\<close> names a transport failure.
\<close>

record error_response =
  status :: nat
  detail :: "string option"

record axios_error =
  response :: "error_response option"
  code :: "string option"

section \<open>DocumentProcessor.vue\<close>

record File =
  name :: string
  type :: string
  fsize :: nat

datatype status_type = Success | Error | Info

record upload_status =
  status_kind :: status_type
  message :: string

datatype stamp = Str string | Date time

record document =
  doc_name :: string
  fileId :: "string option"
  processedAt :: stamp

record dp_state =
  uploadedFiles :: "File list"
  isDragging :: bool
  uploading :: bool
  uploadStatus :: "upload_status option"
  processedDocuments :: "document list"
  apiUrl :: string

text \<open>\<open>data()\<close>; the base URL comes from the build environment, \<open>'/api'\<close> by default.\<close>

definition dp_data :: "string option \<Rightarrow> dp_state" where
  "dp_data vite_api_url =
     \<lparr>uploadedFiles = [], isDragging = False, uploading = False, uploadStatus = None,
      processedDocuments = [], apiUrl = or_else vite_api_url ''/api''\<rparr>"

text \<open>
  \<open>showStatus\<close> stores the status; for \<open>'success'\<close> it also starts a timer of five seconds
  that clears it (the event \<open>StatusTimeout\<close> below).
\<close>

definition showStatus :: "status_type \<Rightarrow> string \<Rightarrow> dp_state \<Rightarrow> dp_state" where
  "showStatus k m s = s\<lparr>uploadStatus := Some \<lparr>status_kind = k, message = m\<rparr>\<rparr>"

definition allowedType :: string where
  "allowedType = ''application/pdf''"

definition allowedExtension :: string where
  "allowedExtension = ''.pdf''"

text \<open>The body of the filter of \<open>addFiles\<close>.\<close>

definition extension :: "File \<Rightarrow> string option" where
  "extension f = map_option (\<lambda>piece. ''.'' @ toLowerCase piece) (pop (split_js CHR ''.'' (name f)))"

definition addFiles_valid :: "File \<Rightarrow> bool" where
  "addFiles_valid f = (type f = allowedType \<or> extension f = Some allowedExtension)"

text \<open>The filter of \<open>handleDrop\<close>.\<close>

definition handleDrop_valid :: "File \<Rightarrow> bool" where
  "handleDrop_valid f = (type f = ''application/pdf'' \<or> endsWith (toLowerCase (name f)) ''.pdf'')"

text \<open>The loop \<open>validFiles.forEach\<close>: a file is pushed unless name and size are there already.\<close>

definition exists_in :: "File list \<Rightarrow> File \<Rightarrow> bool" where
  "exists_in up f = list_ex (\<lambda>g. name g = name f \<and> fsize g = fsize f) up"

fun push_new :: "File list \<Rightarrow> File list \<Rightarrow> File list" where
  "push_new up [] = up"
| "push_new up (f # fs) = push_new (if \<not> exists_in up f then up @ [f] else up) fs"

definition addFiles :: "File list \<Rightarrow> dp_state \<Rightarrow> dp_state" where
  "addFiles files s =
     (let validFiles = filter addFiles_valid files
      in if length validFiles = 0 \<and> length files > 0
         then showStatus Error ''Por favor, selecciona solo archivos PDF'' s
         else
           let s1 = (if length validFiles < length files
                     then showStatus Info
                            (show_nat (length files - length validFiles)
                               @ '' archivo(s) rechazado(s). Solo se aceptan archivos PDF'') s
                     else s);
               s2 = s1\<lparr>uploadedFiles := push_new (uploadedFiles s1) validFiles\<rparr>
           in if length validFiles > 0
              then showStatus Info (show_nat (length validFiles) @ '' archivo(s) agregado(s)'') s2
              else s2)"

definition handleFileSelect :: "File list \<Rightarrow> dp_state \<Rightarrow> dp_state" where
  "handleFileSelect files s = addFiles files s"

definition handleDrop :: "File list \<Rightarrow> dp_state \<Rightarrow> dp_state" where
  "handleDrop dropped s = addFiles (filter handleDrop_valid dropped) (s\<lparr>isDragging := False\<rparr>)"

text \<open>
  \<open>xs.splice(index, 1)\<close>: a negative index counts from the end and stops at 0, an index
  past the end removes nothing.
\<close>

definition splice1 :: "int \<Rightarrow> 'a list \<Rightarrow> 'a list" where
  "splice1 i xs =
     (let n = int (length xs);
          start = (if i < 0 then max (n + i) 0 else min i n)
      in take (nat start) xs @ drop (nat start + 1) xs)"

definition removeFile :: "int \<Rightarrow> dp_state \<Rightarrow> dp_state" where
  "removeFile i s =
     (let s1 = s\<lparr>uploadedFiles := splice1 i (uploadedFiles s)\<rparr>
      in if length (uploadedFiles s1) = 0 then s1\<lparr>uploadStatus := None\<rparr> else s1)"

definition clearFiles :: "dp_state \<Rightarrow> dp_state" where
  "clearFiles s = s\<lparr>uploadedFiles := [], uploadStatus := None\<rparr>"

text \<open>
  \<open>uploadFiles\<close> is asynchronous. Up to \<open>await axios.post\<close> it runs in one piece
  (\<open>uploadFiles\<close> below: the new state and the request, if one is issued); the rest runs when
  the promise settles, on the state of that moment: \<open>uploadFiles_then\<close> for a response with
  a success status and \<open>uploadFiles_catch\<close> for a rejection, both ending with the
  \<open>finally\<close> block.
\<close>

record upload_request =
  up_url :: string
  up_form :: "(string \<times> File) list"
  up_headers :: "(string \<times> string) list"

definition uploadFiles :: "dp_state \<Rightarrow> dp_state \<times> upload_request option" where
  "uploadFiles s =
     (if length (uploadedFiles s) = 0 \<or> uploading s then (s, None)
      else
        let s1 = s\<lparr>uploading := True, uploadStatus := None\<rparr>;
            formData = map (\<lambda>f. (''files'', f)) (uploadedFiles s1);
            endpoint = (if length (uploadedFiles s1) = 1
                        then apiUrl s1 @ ''/upload''
                        else apiUrl s1 @ ''/upload/multiple'')
        in (s1, Some \<lparr>up_url = endpoint, up_form = formData,
                       up_headers = [(''Content-Type'', ''multipart/form-data'')]\<rparr>))"

text \<open>
  The body of a response: one result object (\<open>/upload\<close>) or an array of them
  (\<open>/upload/multiple\<close>). \<open>file_id\<close> is \<open>null\<close> in a failed entry and \<open>uploaded_at\<close> may be
  missing.
\<close>

record upload_result =
  success :: bool
  filename :: string
  file_id :: "string option"
  uploaded_at :: "string option"

datatype upload_data = Obj upload_result | Arr "upload_result list"

definition to_document :: "time \<Rightarrow> upload_result \<Rightarrow> document" where
  "to_document now r =
     \<lparr>doc_name = filename r, fileId = file_id r,
      processedAt = (case uploaded_at r of
                       None \<Rightarrow> Date now
                     | Some t \<Rightarrow> if t \<noteq> [] then Str t else Date now)\<rparr>"

text \<open>The loop \<open>results.forEach\<close> on \<open>(uploadedDocs, successCount, failedCount)\<close>.\<close>

fun tally :: "time \<Rightarrow> upload_result list \<Rightarrow> document list \<times> nat \<times> nat \<Rightarrow> document list \<times> nat \<times> nat" where
  "tally now [] acc = acc"
| "tally now (r # rs) (uploadedDocs, successCount, failedCount) =
     (if success r
      then tally now rs (uploadedDocs @ [to_document now r], successCount + 1, failedCount)
      else tally now rs (uploadedDocs, successCount, failedCount + 1))"

text \<open>
  In the branch for one file \<open>data.success\<close> is read from the body as it is: on an array
  the property is \<open>undefined\<close>, which is falsy.
\<close>

definition count_results :: "time \<Rightarrow> dp_state \<Rightarrow> upload_data \<Rightarrow> document list \<times> nat \<times> nat" where
  "count_results now s data =
     (if length (uploadedFiles s) = 1
      then (case data of
              Obj r \<Rightarrow> if success r then ([to_document now r], 1, 0) else ([], 0, 1)
            | Arr rs \<Rightarrow> ([], 0, 1))
      else tally now (case data of Arr rs \<Rightarrow> rs | Obj r \<Rightarrow> [r]) ([], 0, 0))"

definition uploadFiles_then :: "time \<Rightarrow> upload_data \<Rightarrow> dp_state \<Rightarrow> dp_state" where
  "uploadFiles_then now data s =
     (case count_results now s data of
        (uploadedDocs, successCount, failedCount) \<Rightarrow>
          let s1 = (if length uploadedDocs > 0
                    then s\<lparr>processedDocuments := processedDocuments s @ uploadedDocs\<rparr>
                    else s);
              s2 = (if successCount > 0 \<and> failedCount = 0
                    then showStatus Success
                           ([inv_excl] @ show_nat successCount
                              @ '' documento(s) subido(s) exitosamente!'') s1
                    else if successCount > 0 \<and> failedCount > 0
                    then showStatus Info
                           (show_nat successCount @ '' documento(s) subido(s), ''
                              @ show_nat failedCount @ '' fallido(s)'') s1
                    else showStatus Error
                           (''No se pudo subir ning'' @ [u_acute]
                              @ ''n documento. Verifica los archivos e intenta de nuevo.'') s1);
              s3 = (if failedCount = 0 then clearFiles s2 else s2)
          in s3\<lparr>uploading := False\<rparr>)"

definition response_status :: "axios_error \<Rightarrow> nat option" where
  "response_status e = map_option status (response e)"

definition response_detail :: "axios_error \<Rightarrow> string option" where
  "response_detail e = (case response e of None \<Rightarrow> None | Some r \<Rightarrow> detail r)"

definition uploadFiles_catch :: "axios_error \<Rightarrow> dp_state \<Rightarrow> dp_state" where
  "uploadFiles_catch e s =
     (let s1 =
        (if response_status e = Some 400
         then showStatus Error
                (or_else (response_detail e)
                   (''Error de validaci'' @ [o_acute]
                      @ ''n. Verifica que los archivos sean del tipo correcto y no excedan 50MB.'')) s
         else if response_status e = Some 404
         then showStatus Error
                (''El endpoint de carga de documentos a'' @ [u_acute] @ ''n no est'' @ [a_acute]
                   @ '' disponible. Aseg'' @ [u_acute] @ ''rate de que el backend est''
                   @ [e_acute] @ '' ejecut'' @ [a_acute] @ ''ndose.'') s
         else if response_status e = Some 413
         then showStatus Error
                (''Archivo demasiado grande. El tama'' @ [n_tilde] @ ''o m'' @ [a_acute]
                   @ ''ximo permitido es 50MB por archivo.'') s
         else showStatus Error
                (or_else (response_detail e)
                   ''Error al procesar los documentos. Por favor, intenta de nuevo.'') s)
      in s1\<lparr>uploading := False\<rparr>)"

text \<open>
  The component with its surroundings: the requests that were issued and have not settled
  yet, and the timers started by \<open>showStatus('success', ...)\<close>. An event is a call of a
  method from the template, the settling of a request or the firing of a timer; a request
  settles only once and only if it was issued, a timer fires only if it was started.
\<close>

record dp_system =
  dp_component :: dp_state
  dp_pending :: "upload_request list"
  dp_timers :: nat

datatype dp_event =
    HandleFileSelect "File list"
  | HandleDrop "File list"
  | DragOver
  | DragLeave
  | RemoveFile int
  | ClearFiles
  | UploadFiles
  | UploadResolved time upload_data
  | UploadRejected axios_error
  | StatusTimeout

definition dp_mounted :: "string option \<Rightarrow> dp_system" where
  "dp_mounted vite_api_url =
     \<lparr>dp_component = dp_data vite_api_url, dp_pending = [], dp_timers = 0\<rparr>"

text \<open>
  The timers that a call of \<open>showStatus\<close> starts: one for \<open>'success'\<close>, none for the other
  types. In \<open>uploadFiles\<close> after a response the status is shown before \<open>clearFiles\<close> resets
  it, so the timer of a fully successful upload runs on although its status is gone; the
  calls in \<open>addFiles\<close> and in the \<open>catch\<close> block have the types \<open>'info'\<close> and \<open>'error'\<close>.
\<close>

definition showStatus_timers :: "status_type \<Rightarrow> nat" where
  "showStatus_timers k = (if k = Success then 1 else 0)"

definition uploadFiles_then_timers :: "time \<Rightarrow> upload_data \<Rightarrow> dp_state \<Rightarrow> nat" where
  "uploadFiles_then_timers now data s =
     (case count_results now s data of
        (uploadedDocs, successCount, failedCount) \<Rightarrow>
          if successCount > 0 \<and> failedCount = 0 then showStatus_timers Success
          else if successCount > 0 \<and> failedCount > 0 then showStatus_timers Info
          else showStatus_timers Error)"

fun dp_step :: "dp_event \<Rightarrow> dp_system \<Rightarrow> dp_system option" where
  "dp_step (HandleFileSelect files) y =
     Some (y\<lparr>dp_component := handleFileSelect files (dp_component y)\<rparr>)"
| "dp_step (HandleDrop files) y =
     Some (y\<lparr>dp_component := handleDrop files (dp_component y)\<rparr>)"
| "dp_step DragOver y = Some (y\<lparr>dp_component := (dp_component y)\<lparr>isDragging := True\<rparr>\<rparr>)"
| "dp_step DragLeave y = Some (y\<lparr>dp_component := (dp_component y)\<lparr>isDragging := False\<rparr>\<rparr>)"
| "dp_step (RemoveFile i) y = Some (y\<lparr>dp_component := removeFile i (dp_component y)\<rparr>)"
| "dp_step ClearFiles y = Some (y\<lparr>dp_component := clearFiles (dp_component y)\<rparr>)"
| "dp_step UploadFiles y =
     (case uploadFiles (dp_component y) of
        (s, None) \<Rightarrow> Some (y\<lparr>dp_component := s\<rparr>)
      | (s, Some req) \<Rightarrow> Some (y\<lparr>dp_component := s, dp_pending := dp_pending y @ [req]\<rparr>))"
| "dp_step (UploadResolved now data) y =
     (case dp_pending y of
        [] \<Rightarrow> None
      | req # reqs \<Rightarrow>
          Some (y\<lparr>dp_component := uploadFiles_then now data (dp_component y),
                  dp_pending := reqs,
                  dp_timers := dp_timers y + uploadFiles_then_timers now data (dp_component y)\<rparr>))"
| "dp_step (UploadRejected e) y =
     (case dp_pending y of
        [] \<Rightarrow> None
      | req # reqs \<Rightarrow>
          Some (y\<lparr>dp_component := uploadFiles_catch e (dp_component y), dp_pending := reqs\<rparr>))"
| "dp_step StatusTimeout y =
     (if dp_timers y = 0 then None
      else Some (y\<lparr>dp_component := (dp_component y)\<lparr>uploadStatus := None\<rparr>,
                   dp_timers := dp_timers y - 1\<rparr>))"

fun dp_run :: "dp_event list \<Rightarrow> dp_system \<Rightarrow> dp_system option" where
  "dp_run [] y = Some y"
| "dp_run (e # es) y = (case dp_step e y of None \<Rightarrow> None | Some y' \<Rightarrow> dp_run es y')"

text \<open>
  What the template lets the user do: the remove button of row \<open>i\<close> exists for every row
  of the list and is never disabled; the upload button is disabled while uploading or
  with an empty list, the clear button while uploading, and both sit in a block shown
  only for a non-empty list.
\<close>

fun dp_offered :: "dp_event \<Rightarrow> dp_state \<Rightarrow> bool" where
  "dp_offered (RemoveFile i) s = (0 \<le> i \<and> i < int (length (uploadedFiles s)))"
| "dp_offered UploadFiles s = (\<not> (uploading s \<or> length (uploadedFiles s) = 0))"
| "dp_offered ClearFiles s = (\<not> uploading s \<and> length (uploadedFiles s) > 0)"
| "dp_offered e s = True"

section \<open>Chat.vue\<close>

text \<open>
  One entry of \<open>sources\<close> in a chat response. The scores are decimal fractions that the
  client only stores and shows, so they are rationals here.
\<close>

record source =
  chunk_id :: string
  source_file_id :: string
  source_filename :: string
  text_preview :: string
  relevance_score :: rat
  chunk_index :: nat

datatype message_type = user | assistant | error

text \<open>Fields that an object literal does not set are \<open>undefined\<close>: \<open>None\<close>.\<close>

record chat_message =
  message_type :: message_type
  content :: string
  sources :: "source list option"
  modelUsed :: "string option"
  timestamp :: time

record chat_state =
  messages :: "chat_message list"
  currentMessage :: string
  loading :: bool
  chat_apiUrl :: string
  selectedFileId :: "string option"
  model :: string
  maxChunks :: nat
  temperature :: rat

definition chat_data :: "string option \<Rightarrow> chat_state" where
  "chat_data vite_api_url =
     \<lparr>messages = [], currentMessage = [], loading = False,
      chat_apiUrl = or_else vite_api_url ''/api'', selectedFileId = None,
      model = ''mistral:7b-instruct'', maxChunks = 5, temperature = 7 / 10\<rparr>"

definition welcome_text :: string where
  "welcome_text = [inv_excl] @ ''Hola! Soy LegalBot. Puedo ayudarte a entender documentos legales en lenguaje sencillo. ''
               @ [inv_quest] @ ''En qu'' @ [e_acute] @ '' puedo ayudarte?''"

definition mounted :: "time \<Rightarrow> chat_state \<Rightarrow> chat_state" where
  "mounted now s =
     s\<lparr>messages := messages s @
          [\<lparr>message_type = assistant, content = welcome_text, sources = None, modelUsed = None,
            timestamp = now\<rparr>]\<rparr>"

text \<open>
  The request body is an object literal, with \<open>file_id\<close> added afterwards under a
  condition: a list of fields and values, in the order of insertion.
\<close>

datatype json = JString string | JNumber rat

record chat_request =
  chat_url :: string
  chat_body :: "(string \<times> json) list"
  chat_headers :: "(string \<times> string) list"

text \<open>
  \<open>sendMessage\<close> up to \<open>await axios.post\<close>: the new state and the request, if one is
  issued. Resizing the text area and scrolling act on the page only and are left out.
\<close>

definition sendMessage :: "time \<Rightarrow> chat_state \<Rightarrow> chat_state \<times> chat_request option" where
  "sendMessage now s =
     (if trim (currentMessage s) = [] \<or> loading s then (s, None)
      else
        let userMessage = trim (currentMessage s);
            s1 = s\<lparr>currentMessage := []\<rparr>;
            userMsg = \<lparr>message_type = user, content = userMessage, sources = None,
                       modelUsed = None, timestamp = now\<rparr>;
            s2 = s1\<lparr>messages := messages s1 @ [userMsg]\<rparr>;
            s3 = s2\<lparr>loading := True\<rparr>;
            requestBody = [(''question'', JString userMessage),
                           (''model'', JString (model s3)),
                           (''max_chunks'', JNumber (of_nat (maxChunks s3))),
                           (''temperature'', JNumber (temperature s3))];
            requestBody' = (case selectedFileId s3 of
                              None \<Rightarrow> requestBody
                            | Some fid \<Rightarrow>
                                if fid \<noteq> [] then requestBody @ [(''file_id'', JString fid)]
                                else requestBody)
        in (s3, Some \<lparr>chat_url = chat_apiUrl s3 @ ''/chat'', chat_body = requestBody',
                       chat_headers = [(''Content-Type'', ''application/json'')]\<rparr>))"

text \<open>The body of a response with a success status.\<close>

record chat_response =
  answer :: "string option"
  response_sources :: "source list option"
  model_used :: "string option"

text \<open>
  \<open>response.data.sources || []\<close>: an array, also an empty one, is truthy; a missing field
  gives the empty array.
\<close>

definition sources_or_empty :: "source list option \<Rightarrow> source list" where
  "sources_or_empty v = (case v of None \<Rightarrow> [] | Some xs \<Rightarrow> xs)"

definition sendMessage_then :: "time \<Rightarrow> chat_response \<Rightarrow> chat_state \<Rightarrow> chat_state" where
  "sendMessage_then now data s =
     (let assistantMessage =
            \<lparr>message_type = assistant,
             content = or_else (answer data) ''Respuesta recibida'',
             sources = Some (sources_or_empty (response_sources data)),
             modelUsed = model_used data,
             timestamp = now\<rparr>;
          s1 = s\<lparr>messages := messages s @ [assistantMessage]\<rparr>
      in s1\<lparr>loading := False\<rparr>)"

definition errorMessage :: "axios_error \<Rightarrow> string" where
  "errorMessage e =
     (let fallback = ''Error al procesar tu mensaje. Por favor, intenta de nuevo.''
      in case response e of
           Some r \<Rightarrow>
             let detail_text = or_else (detail r) []
             in if status r = 404
                then or_else (Some detail_text)
                       (''No se encontraron documentos relevantes. Aseg'' @ [u_acute]
                          @ ''rate de haber subido y procesado documentos.'')
                else if status r = 400
                then or_else (Some detail_text)
                       (''Error en la solicitud. Verifica que el documento est'' @ [e_acute]
                          @ '' procesado.'')
                else if status r = 503
                then or_else (Some detail_text)
                       (''El modelo no est'' @ [a_acute] @ '' disponible. Verifica que est''
                          @ [e_acute] @ '' instalado en Ollama.'')
                else or_else (Some detail_text) fallback
         | None \<Rightarrow>
             if code e = Some ''ERR_NETWORK''
             then ''Error de conexi'' @ [o_acute] @ ''n. Verifica que el backend est''
                    @ [e_acute] @ '' ejecut'' @ [a_acute] @ ''ndose.''
             else fallback)"

definition sendMessage_catch :: "time \<Rightarrow> axios_error \<Rightarrow> chat_state \<Rightarrow> chat_state" where
  "sendMessage_catch now e s =
     (let s1 = s\<lparr>messages := messages s @
                   [\<lparr>message_type = error, content = errorMessage e, sources = None,
                     modelUsed = None, timestamp = now\<rparr>]\<rparr>
      in s1\<lparr>loading := False\<rparr>)"

text \<open>
  The block \<open>message-sources\<close> of the template: present for a message with a non-empty
  \<open>sources\<close>, one row for every source in the order of the array, with the file name and
  the score as a percentage with one decimal. The formatting of the number
  (\<open>toFixed(1)\<close>) is a parameter.
\<close>

definition render_sources :: "(rat \<Rightarrow> string) \<Rightarrow> chat_message \<Rightarrow> (string \<times> string) list option" where
  "render_sources to_fixed1 m =
     (case sources m of
        None \<Rightarrow> None
      | Some xs \<Rightarrow>
          if length xs > 0
          then Some (map (\<lambda>x. (source_filename x,
                                ''Relevancia: '' @ to_fixed1 (relevance_score x * 100) @ ''%'')) xs)
          else None)"

text \<open>
  The component with its surroundings, as for the document processor. The text area is
  bound to \<open>currentMessage\<close> (\<open>v-model\<close>): the user may set it to any string, and
  shift-enter appends a line feed.
\<close>

record chat_system =
  chat_component :: chat_state
  chat_pending :: "chat_request list"

datatype chat_event =
    Typed string
  | ShiftEnter
  | SendMessage time
  | ChatResolved time chat_response
  | ChatRejected time axios_error

definition chat_mounted :: "string option \<Rightarrow> time \<Rightarrow> chat_system" where
  "chat_mounted vite_api_url now =
     \<lparr>chat_component = mounted now (chat_data vite_api_url), chat_pending = []\<rparr>"

fun chat_step :: "chat_event \<Rightarrow> chat_system \<Rightarrow> chat_system option" where
  "chat_step (Typed text) y =
     Some (y\<lparr>chat_component := (chat_component y)\<lparr>currentMessage := text\<rparr>\<rparr>)"
| "chat_step ShiftEnter y =
     Some (y\<lparr>chat_component :=
               (chat_component y)\<lparr>currentMessage := currentMessage (chat_component y) @ [CHR 0x0A]\<rparr>\<rparr>)"
| "chat_step (SendMessage now) y =
     (case sendMessage now (chat_component y) of
        (s, None) \<Rightarrow> Some (y\<lparr>chat_component := s\<rparr>)
      | (s, Some req) \<Rightarrow> Some (y\<lparr>chat_component := s, chat_pending := chat_pending y @ [req]\<rparr>))"
| "chat_step (ChatResolved now data) y =
     (case chat_pending y of
        [] \<Rightarrow> None
      | req # reqs \<Rightarrow>
          Some (y\<lparr>chat_component := sendMessage_then now data (chat_component y),
                  chat_pending := reqs\<rparr>))"
| "chat_step (ChatRejected now e) y =
     (case chat_pending y of
        [] \<Rightarrow> None
      | req # reqs \<Rightarrow>
          Some (y\<lparr>chat_component := sendMessage_catch now e (chat_component y),
                  chat_pending := reqs\<rparr>))"

fun chat_run :: "chat_event list \<Rightarrow> chat_system \<Rightarrow> chat_system option" where
  "chat_run [] y = Some y"
| "chat_run (e # es) y = (case chat_step e y of None \<Rightarrow> None | Some y' \<Rightarrow> chat_run es y')"

section \<open>Invariants\<close>

text \<open>
  The pair that \<open>addFiles\<close> compares, and the invariant of the pending list: no two entries
  with the same name and size.
\<close>

definition file_key :: "File \<Rightarrow> string \<times> nat" where
  "file_key f = (name f, fsize f)"

definition unique_files :: "dp_state \<Rightarrow> bool" where
  "unique_files s = distinct (map file_key (uploadedFiles s))"

text \<open>
  At most one request is in flight, and one is in flight exactly when the flag of the
  component is set.
\<close>

definition dp_single :: "dp_system \<Rightarrow> bool" where
  "dp_single y = (length (dp_pending y) \<le> 1 \<and> (uploading (dp_component y) \<longleftrightarrow> dp_pending y \<noteq> []))"

definition chat_single :: "chat_system \<Rightarrow> bool" where
  "chat_single y = (length (chat_pending y) \<le> 1 \<and> (loading (chat_component y) \<longleftrightarrow> chat_pending y \<noteq> []))"

text \<open>The settings of the chat that go into every request.\<close>

definition chat_config :: "chat_state \<Rightarrow> string \<times> nat \<times> rat \<times> string option" where
  "chat_config s = (model s, maxChunks s, temperature s, selectedFileId s)"

section \<open>Example inputs and runs\<close>

text \<open>
  Files, responses and event sequences on which the components are run below, with the
  states they lead to.
\<close>

definition pdf_a :: File where
  "pdf_a = \<lparr>name = ''a.pdf'', type = ''application/pdf'', fsize = 10\<rparr>"

definition pdf_b :: File where
  "pdf_b = \<lparr>name = ''B.PDF'', type = [], fsize = 20\<rparr>"

definition exe_file :: File where
  "exe_file = \<lparr>name = ''virus.exe'', type = ''application/x-msdownload'', fsize = 7\<rparr>"

definition unique_events :: "dp_event list" where
  "unique_events =
     [HandleFileSelect [pdf_a, pdf_b, pdf_a], RemoveFile 0, HandleFileSelect [pdf_b, pdf_a]]"

definition unique_result :: dp_system where
  "unique_result =
     \<lparr>dp_component =
        \<lparr>uploadedFiles = [pdf_b, pdf_a], isDragging = False, uploading = False,
         uploadStatus = Some \<lparr>status_kind = Info, message = ''2 archivo(s) agregado(s)''\<rparr>,
         processedDocuments = [], apiUrl = ''/api''\<rparr>,
      dp_pending = [], dp_timers = 0\<rparr>"

definition dp_idle :: dp_state where
  "dp_idle =
     \<lparr>uploadedFiles = [pdf_a, pdf_b], isDragging = False, uploading = False,
      uploadStatus = Some \<lparr>status_kind = Info, message = ''2 archivo(s) agregado(s)''\<rparr>,
      processedDocuments = [], apiUrl = ''/api''\<rparr>"

definition two_files_request :: upload_request where
  "two_files_request =
     \<lparr>up_url = ''/api/upload/multiple'', up_form = [(''files'', pdf_a), (''files'', pdf_b)],
      up_headers = [(''Content-Type'', ''multipart/form-data'')]\<rparr>"

definition dp_busy :: dp_system where
  "dp_busy =
     \<lparr>dp_component = dp_idle\<lparr>uploading := True, uploadStatus := None\<rparr>,
      dp_pending = [two_files_request], dp_timers = 0\<rparr>"

definition dp_busy_events :: "dp_event list" where
  "dp_busy_events = [HandleFileSelect [pdf_a, pdf_b], UploadFiles, UploadFiles]"

definition network_error :: axios_error where
  "network_error = \<lparr>response = None, code = Some ''ERR_NETWORK''\<rparr>"

definition http_error :: "nat \<Rightarrow> string option \<Rightarrow> axios_error" where
  "http_error st d = \<lparr>response = Some \<lparr>status = st, detail = d\<rparr>, code = None\<rparr>"

definition dp_failed :: dp_system where
  "dp_failed =
     \<lparr>dp_component =
        dp_idle\<lparr>uploadStatus :=
                  Some \<lparr>status_kind = Error,
                        message = ''Error al procesar los documentos. Por favor, intenta de nuevo.''\<rparr>\<rparr>,
      dp_pending = [], dp_timers = 0\<rparr>"

definition one_file_state :: dp_state where
  "one_file_state =
     \<lparr>uploadedFiles = [pdf_a], isDragging = False, uploading = False,
      uploadStatus = Some \<lparr>status_kind = Info, message = ''1 archivo(s) agregado(s)''\<rparr>,
      processedDocuments = [], apiUrl = ''/api''\<rparr>"

definition one_file_request :: upload_request where
  "one_file_request =
     \<lparr>up_url = ''/api/upload'', up_form = [(''files'', pdf_a)],
      up_headers = [(''Content-Type'', ''multipart/form-data'')]\<rparr>"

definition stored_a :: upload_result where
  "stored_a =
     \<lparr>success = True, filename = ''a.pdf'', file_id = Some ''550e8400'',
      uploaded_at = Some ''2024-01-15T10:30:00''\<rparr>"

definition stored_b :: upload_result where
  "stored_b =
     \<lparr>success = True, filename = ''B.PDF'', file_id = Some ''6fa459ea'',
      uploaded_at = Some ''2024-01-15T10:30:01''\<rparr>"

definition removal_events :: "dp_event list" where
  "removal_events =
     [HandleFileSelect [pdf_a, pdf_b], UploadFiles, RemoveFile 0,
      UploadResolved 9 (Arr [stored_a, stored_b])]"

definition removal_result :: dp_system where
  "removal_result =
     \<lparr>dp_component =
        \<lparr>uploadedFiles = [pdf_b], isDragging = False, uploading = False,
         uploadStatus =
           Some \<lparr>status_kind = Error,
                 message = ''No se pudo subir ning'' @ [u_acute]
                   @ ''n documento. Verifica los archivos e intenta de nuevo.''\<rparr>,
         processedDocuments = [], apiUrl = ''/api''\<rparr>,
      dp_pending = [], dp_timers = 0\<rparr>"

definition timer_events :: "dp_event list" where
  "timer_events =
     [HandleFileSelect [pdf_a, pdf_b], UploadFiles, UploadResolved 9 (Arr [stored_a, stored_b]),
      StatusTimeout, HandleFileSelect [pdf_a], UploadFiles, UploadFiles]"

definition timer_result :: dp_system where
  "timer_result =
     \<lparr>dp_component =
        \<lparr>uploadedFiles = [pdf_a], isDragging = False, uploading = True, uploadStatus = None,
         processedDocuments =
           [\<lparr>doc_name = ''a.pdf'', fileId = Some ''550e8400'',
             processedAt = Str ''2024-01-15T10:30:00''\<rparr>,
            \<lparr>doc_name = ''B.PDF'', fileId = Some ''6fa459ea'',
             processedAt = Str ''2024-01-15T10:30:01''\<rparr>],
         apiUrl = ''/api''\<rparr>,
      dp_pending = [one_file_request], dp_timers = 0\<rparr>"

definition welcome_message :: chat_message where
  "welcome_message =
     \<lparr>message_type = assistant, content = welcome_text, sources = None, modelUsed = None,
      timestamp = 1\<rparr>"

definition chat_idle :: chat_state where
  "chat_idle =
     \<lparr>messages = [welcome_message], currentMessage = ''  hola '', loading = False,
      chat_apiUrl = ''/api'', selectedFileId = None, model = ''mistral:7b-instruct'',
      maxChunks = 5, temperature = 7 / 10\<rparr>"

definition hola_request :: chat_request where
  "hola_request =
     \<lparr>chat_url = ''/api/chat'',
      chat_body = [(''question'', JString ''hola''), (''model'', JString ''mistral:7b-instruct''),
                   (''max_chunks'', JNumber 5), (''temperature'', JNumber (7 / 10))],
      chat_headers = [(''Content-Type'', ''application/json'')]\<rparr>"

definition hola_message :: chat_message where
  "hola_message =
     \<lparr>message_type = user, content = ''hola'', sources = None, modelUsed = None, timestamp = 2\<rparr>"

definition chat_sent :: chat_state where
  "chat_sent = chat_idle\<lparr>messages := [welcome_message, hola_message], currentMessage := [],
                 loading := True\<rparr>"

definition chat_busy :: chat_system where
  "chat_busy =
     \<lparr>chat_component = chat_sent\<lparr>currentMessage := ''otra''\<rparr>, chat_pending = [hola_request]\<rparr>"

definition chat_busy_events :: "chat_event list" where
  "chat_busy_events = [Typed ''  hola '', SendMessage 2, Typed ''otra'', SendMessage 3]"

definition chat_failed :: chat_system where
  "chat_failed =
     \<lparr>chat_component =
        chat_idle\<lparr>messages :=
                    [welcome_message, hola_message,
                     \<lparr>message_type = error,
                      content = ''Error de conexi'' @ [o_acute] @ ''n. Verifica que el backend est''
                                  @ [e_acute] @ '' ejecut'' @ [a_acute] @ ''ndose.'',
                      sources = None, modelUsed = None, timestamp = 4\<rparr>],
                  currentMessage := ''otra''\<rparr>,
      chat_pending = []\<rparr>"

definition chat_blank :: chat_state where
  "chat_blank = chat_idle\<lparr>currentMessage := [CHR '' '', CHR 0x09, CHR 0x0A, CHR 0xA0]\<rparr>"

definition chat_filtered :: chat_state where
  "chat_filtered = chat_idle\<lparr>selectedFileId := Some ''550e8400''\<rparr>"

definition filtered_request :: chat_request where
  "filtered_request =
     hola_request\<lparr>chat_body := chat_body hola_request @ [(''file_id'', JString ''550e8400'')]\<rparr>"

definition source_low :: source where
  "source_low =
     \<lparr>chunk_id = ''c7'', source_file_id = ''f1'', source_filename = ''contrato.pdf'',
      text_preview = ''El arrendatario'', relevance_score = 3 / 10, chunk_index = 7\<rparr>"

definition source_high :: source where
  "source_high =
     \<lparr>chunk_id = ''c2'', source_file_id = ''f2'', source_filename = ''anexo.pdf'',
      text_preview = ''Las partes'', relevance_score = 9 / 10, chunk_index = 2\<rparr>"

definition two_sources_response :: chat_response where
  "two_sources_response =
     \<lparr>answer = Some ''Trata de un arrendamiento.'',
      response_sources = Some [source_low, source_high],
      model_used = Some ''mistral:7b-instruct''\<rparr>"

definition chat_answered :: chat_system where
  "chat_answered =
     \<lparr>chat_component =
        chat_idle\<lparr>messages :=
                    [welcome_message, hola_message,
                     \<lparr>message_type = assistant, content = ''Trata de un arrendamiento.'',
                      sources = Some [source_low, source_high],
                      modelUsed = Some ''mistral:7b-instruct'', timestamp = 5\<rparr>],
                  currentMessage := ''otra''\<rparr>,
      chat_pending = []\<rparr>"

section \<open>Properties of the view switch\<close>

lemma view_ok_click: "view_ok (app_click b s)"
  by (cases b) (simp_all add: view_ok_def app_click_def changeView_def)

lemma view_ok_run: "view_ok s \<Longrightarrow> view_ok (app_run bs s)"
  by (induction bs arbitrary: s) (simp_all add: view_ok_click)

lemma view_ok_data: "view_ok app_data"
  by (simp add: view_ok_def app_data_def)

text \<open>
  Claim C10. The view is \<open>'chat'\<close> at the start, and after any sequence of sidebar clicks
  it is \<open>'chat'\<close> or \<open>'documents'\<close>, so exactly one of the two views is rendered.
\<close>

theorem C10_view_invariant:
  "currentView app_data = ''chat'' \<and>
   (currentView (app_run bs app_data) = ''chat'' \<or>
    currentView (app_run bs app_data) = ''documents'') \<and>
   chat_rendered (app_run bs app_data) \<noteq> documents_rendered (app_run bs app_data)"
proof -
  have ok: "view_ok (app_run bs app_data)"
    by (rule view_ok_run [OF view_ok_data])
  have first: "currentView app_data = ''chat''"
    by (simp add: app_data_def)
  have ne: "''chat'' \<noteq> ''documents''"
    by simp
  from ok ne have "chat_rendered (app_run bs app_data) \<noteq> documents_rendered (app_run bs app_data)"
    unfolding view_ok_def chat_rendered_def documents_rendered_def by auto
  with ok first show ?thesis
    unfolding view_ok_def by simp
qed

theorem C10_view_invariant_witness:
  "currentView (app_run [DocumentsButton, ChatButton, DocumentsButton] app_data) = ''documents'' \<and>
   \<not> chat_rendered (app_run [DocumentsButton, ChatButton, DocumentsButton] app_data) \<and>
   documents_rendered (app_run [DocumentsButton, ChatButton, DocumentsButton] app_data)"
  using C10_view_invariant [of "[DocumentsButton, ChatButton, DocumentsButton]"]
  by (simp add: app_data_def app_click_def changeView_def chat_rendered_def documents_rendered_def)

section \<open>The pending list of the document processor\<close>

lemma exists_in_key: "exists_in up f \<longleftrightarrow> file_key f \<in> file_key ` set up"
  by (auto simp: exists_in_def list_ex_iff file_key_def intro: rev_image_eqI)

lemma push_new_distinct:
  "distinct (map file_key up) \<Longrightarrow> distinct (map file_key (push_new up fs))"
  by (induction fs arbitrary: up) (simp_all add: exists_in_key)

lemma push_new_old_keys:
  "k \<in> file_key ` set up \<Longrightarrow>
   filter (\<lambda>g. file_key g = k) (push_new up fs) = filter (\<lambda>g. file_key g = k) up"
proof (induction fs arbitrary: up)
  case Nil
  then show ?case by simp
next
  case (Cons f fs)
  show ?case
  proof (cases "exists_in up f")
    case True
    with Cons show ?thesis by simp
  next
    case False
    then have "file_key f \<noteq> k"
      using Cons.prems by (auto simp: exists_in_key)
    moreover have "k \<in> file_key ` set (up @ [f])"
      using Cons.prems by simp
    ultimately show ?thesis
      using Cons.IH [of "up @ [f]"] False by simp
  qed
qed

lemma distinct_take_drop:
  assumes "distinct xs" and "a \<le> b"
  shows "distinct (take a xs @ drop b xs)"
proof -
  have "set (drop b xs) \<subseteq> set (drop a xs)"
    using assms(2) by (rule set_drop_subset_set_drop)
  moreover have "set (take a xs) \<inter> set (drop a xs) = {}"
    using assms(1) by (metis append_take_drop_id distinct_append)
  ultimately have "set (take a xs) \<inter> set (drop b xs) = {}"
    by blast
  with assms(1) show ?thesis
    by (simp add: distinct_take distinct_drop)
qed

lemma splice1_distinct:
  "distinct (map file_key up) \<Longrightarrow> distinct (map file_key (splice1 i up))"
proof -
  assume d: "distinct (map file_key up)"
  obtain a where a: "splice1 i up = take a up @ drop (a + 1) up"
    by (simp add: splice1_def Let_def)
  have "map file_key (splice1 i up) = take a (map file_key up) @ drop (a + 1) (map file_key up)"
    by (simp add: a take_map drop_map)
  moreover have "distinct (take a (map file_key up) @ drop (a + 1) (map file_key up))"
    by (rule distinct_take_drop [OF d]) simp
  ultimately show ?thesis by simp
qed

lemma uploadedFiles_showStatus [simp]: "uploadedFiles (showStatus k m s) = uploadedFiles s"
  by (simp add: showStatus_def)

lemma uploadedFiles_addFiles:
  "uploadedFiles (addFiles files s) = uploadedFiles s \<or>
   uploadedFiles (addFiles files s) = push_new (uploadedFiles s) (filter addFiles_valid files)"
  by (simp add: addFiles_def Let_def)

lemma unique_addFiles: "unique_files s \<Longrightarrow> unique_files (addFiles files s)"
  using uploadedFiles_addFiles [of files s]
  by (auto simp: unique_files_def push_new_distinct)

lemma unique_removeFile: "unique_files s \<Longrightarrow> unique_files (removeFile i s)"
  by (simp add: unique_files_def removeFile_def Let_def splice1_distinct)

lemma unique_clearFiles: "unique_files (clearFiles s)"
  by (simp add: unique_files_def clearFiles_def)

lemma unique_uploadFiles: "unique_files s \<Longrightarrow> unique_files (fst (uploadFiles s))"
  by (simp add: unique_files_def uploadFiles_def Let_def)

lemma uploadedFiles_then:
  "uploadedFiles (uploadFiles_then now data s) = uploadedFiles s \<or>
   uploadedFiles (uploadFiles_then now data s) = []"
  by (simp add: uploadFiles_then_def Let_def clearFiles_def split: prod.splits)

lemma unique_then: "unique_files s \<Longrightarrow> unique_files (uploadFiles_then now data s)"
  using uploadedFiles_then [of now data s] by (auto simp: unique_files_def)

lemma unique_catch: "unique_files s \<Longrightarrow> unique_files (uploadFiles_catch e s)"
  by (simp add: unique_files_def uploadFiles_catch_def Let_def)

lemma unique_step:
  "unique_files (dp_component y) \<Longrightarrow> dp_step e y = Some y' \<Longrightarrow> unique_files (dp_component y')"
proof (cases e)
  case UploadFiles
  assume u: "unique_files (dp_component y)" and st: "dp_step e y = Some y'"
  from st UploadFiles have "dp_component y' = fst (uploadFiles (dp_component y))"
    by (auto split: prod.splits option.splits)
  with u show ?thesis by (simp add: unique_uploadFiles)
next
  case (HandleDrop files)
  assume u: "unique_files (dp_component y)" and st: "dp_step e y = Some y'"
  from u have "unique_files ((dp_component y)\<lparr>isDragging := False\<rparr>)"
    by (simp add: unique_files_def)
  with st HandleDrop show ?thesis
    by (auto simp: handleDrop_def unique_addFiles)
next
  case StatusTimeout
  assume u: "unique_files (dp_component y)" and st: "dp_step e y = Some y'"
  from u have "unique_files ((dp_component y)\<lparr>uploadStatus := None\<rparr>)"
    by (simp add: unique_files_def)
  with st StatusTimeout show ?thesis
    by (auto split: if_splits)
next
  case DragOver
  assume u: "unique_files (dp_component y)" and st: "dp_step e y = Some y'"
  with DragOver show ?thesis by (auto simp: unique_files_def)
next
  case DragLeave
  assume u: "unique_files (dp_component y)" and st: "dp_step e y = Some y'"
  with DragLeave show ?thesis by (auto simp: unique_files_def)
qed (auto simp: handleFileSelect_def unique_addFiles unique_removeFile
       unique_clearFiles unique_then unique_catch Let_def
     split: list.splits)

lemma unique_run:
  "unique_files (dp_component y) \<Longrightarrow> dp_run es y = Some y' \<Longrightarrow> unique_files (dp_component y')"
proof (induction es arbitrary: y)
  case Nil
  then show ?case by simp
next
  case (Cons e es)
  then show ?case
    by (auto split: option.splits dest: unique_step)
qed

lemma unique_files_nth:
  "unique_files s \<Longrightarrow> i < length (uploadedFiles s) \<Longrightarrow> j < length (uploadedFiles s) \<Longrightarrow> i \<noteq> j \<Longrightarrow>
   \<not> (name (uploadedFiles s ! i) = name (uploadedFiles s ! j) \<and>
      fsize (uploadedFiles s ! i) = fsize (uploadedFiles s ! j))"
proof
  assume u: "unique_files s" and i: "i < length (uploadedFiles s)"
    and j: "j < length (uploadedFiles s)" and ne: "i \<noteq> j"
    and same: "name (uploadedFiles s ! i) = name (uploadedFiles s ! j) \<and>
      fsize (uploadedFiles s ! i) = fsize (uploadedFiles s ! j)"
  from same i j have "map file_key (uploadedFiles s) ! i = map file_key (uploadedFiles s) ! j"
    by (simp add: file_key_def)
  with u i j have "i = j"
    unfolding unique_files_def by (simp add: nth_eq_iff_index_eq del: nth_map)
  with ne show False by simp
qed

lemma addFiles_keeps_old_keys:
  assumes "g \<in> set (uploadedFiles s)"
  shows "filter (\<lambda>f. file_key f = file_key g) (uploadedFiles (addFiles files s)) =
         filter (\<lambda>f. file_key f = file_key g) (uploadedFiles s)"
  using uploadedFiles_addFiles [of files s] assms push_new_old_keys [of "file_key g" "uploadedFiles s"]
  by auto

text \<open>
  Claim C8. In every state the document processor reaches from its initial state, by any
  sequence of events, no two entries of \<open>uploadedFiles\<close> have the same name and the same
  size; and \<open>addFiles\<close> adds no entry whose name and size are in the list already: the
  entries with the name and size of a listed file are the same before and after.
\<close>

theorem C8_pending_list_unique:
  assumes "dp_run es (dp_mounted vite_api_url) = Some y"
  shows "(\<forall>i < length (uploadedFiles (dp_component y)).
          \<forall>j < length (uploadedFiles (dp_component y)).
            i \<noteq> j \<longrightarrow>
            \<not> (name (uploadedFiles (dp_component y) ! i) = name (uploadedFiles (dp_component y) ! j) \<and>
               fsize (uploadedFiles (dp_component y) ! i) = fsize (uploadedFiles (dp_component y) ! j))) \<and>
         (\<forall>g \<in> set (uploadedFiles (dp_component y)).
            filter (\<lambda>f. name f = name g \<and> fsize f = fsize g)
              (uploadedFiles (addFiles files (dp_component y))) =
            filter (\<lambda>f. name f = name g \<and> fsize f = fsize g)
              (uploadedFiles (dp_component y)))"
proof -
  have "unique_files (dp_component (dp_mounted vite_api_url))"
    by (simp add: unique_files_def dp_mounted_def dp_data_def)
  from unique_run [OF this assms] have u: "unique_files (dp_component y)" .
  have old: "\<forall>g \<in> set (uploadedFiles (dp_component y)).
            filter (\<lambda>f. name f = name g \<and> fsize f = fsize g)
              (uploadedFiles (addFiles files (dp_component y))) =
            filter (\<lambda>f. name f = name g \<and> fsize f = fsize g)
              (uploadedFiles (dp_component y))"
    using addFiles_keeps_old_keys [of _ "dp_component y" files]
    by (simp add: file_key_def)
  from u old show ?thesis
    using unique_files_nth [of "dp_component y"] by blast
qed

lemma unique_events_run: "dp_run unique_events (dp_mounted None) = Some unique_result"
  by code_simp

theorem C8_pending_list_unique_witness:
  "dp_run unique_events (dp_mounted None) = Some unique_result \<and>
   uploadedFiles (dp_component unique_result) = [pdf_b, pdf_a] \<and>
   \<not> (name (uploadedFiles (dp_component unique_result) ! 0) =
        name (uploadedFiles (dp_component unique_result) ! 1) \<and>
      fsize (uploadedFiles (dp_component unique_result) ! 0) =
        fsize (uploadedFiles (dp_component unique_result) ! 1)) \<and>
   filter (\<lambda>f. name f = name pdf_a \<and> fsize f = fsize pdf_a)
     (uploadedFiles (addFiles [pdf_a] (dp_component unique_result))) =
   filter (\<lambda>f. name f = name pdf_a \<and> fsize f = fsize pdf_a)
     (uploadedFiles (dp_component unique_result))"
proof -
  have up: "uploadedFiles (dp_component unique_result) = [pdf_b, pdf_a]"
    by (simp add: unique_result_def)
  note inst = C8_pending_list_unique [OF unique_events_run, of "[pdf_a]"]
  have "0 < length (uploadedFiles (dp_component unique_result))"
    and "1 < length (uploadedFiles (dp_component unique_result))" and "(0::nat) \<noteq> 1"
    by (simp_all add: up)
  with conjunct1 [OF inst]
  have first: "\<not> (name (uploadedFiles (dp_component unique_result) ! 0) =
        name (uploadedFiles (dp_component unique_result) ! 1) \<and>
      fsize (uploadedFiles (dp_component unique_result) ! 0) =
        fsize (uploadedFiles (dp_component unique_result) ! 1))"
    by blast
  have "pdf_a \<in> set (uploadedFiles (dp_component unique_result))"
    by (simp add: up)
  with conjunct2 [OF inst]
  have second: "filter (\<lambda>f. name f = name pdf_a \<and> fsize f = fsize pdf_a)
     (uploadedFiles (addFiles [pdf_a] (dp_component unique_result))) =
   filter (\<lambda>f. name f = name pdf_a \<and> fsize f = fsize pdf_a)
     (uploadedFiles (dp_component unique_result))"
    by blast
  from unique_events_run up first second show ?thesis
    by blast
qed

section \<open>One request in flight\<close>

lemma uploading_showStatus [simp]: "uploading (showStatus k m s) = uploading s"
  by (simp add: showStatus_def)

lemma uploading_addFiles [simp]: "uploading (addFiles files s) = uploading s"
  by (simp add: addFiles_def Let_def)

lemma uploading_removeFile [simp]: "uploading (removeFile i s) = uploading s"
  by (simp add: removeFile_def Let_def)

lemma uploading_clearFiles [simp]: "uploading (clearFiles s) = uploading s"
  by (simp add: clearFiles_def)

lemma uploading_then [simp]: "\<not> uploading (uploadFiles_then now data s)"
  by (simp add: uploadFiles_then_def Let_def split: prod.splits)

lemma uploading_catch [simp]: "\<not> uploading (uploadFiles_catch e s)"
  by (simp add: uploadFiles_catch_def Let_def)

lemma uploadFiles_busy: "uploading s \<Longrightarrow> uploadFiles s = (s, None)"
  by (simp add: uploadFiles_def)

lemma uploadFiles_issue:
  "uploadFiles s = (s', Some req) \<Longrightarrow> \<not> uploading s \<and> uploading s'"
  by (auto simp: uploadFiles_def Let_def split: if_splits)

lemma uploadFiles_idle:
  "uploadFiles s = (s', None) \<Longrightarrow> s' = s"
  by (auto simp: uploadFiles_def Let_def split: if_splits)

lemma dp_uploading_cleared:
  assumes "dp_step e y = Some y'" and "uploading (dp_component y)" and "\<not> uploading (dp_component y')"
  shows "(\<exists>now data. e = UploadResolved now data) \<or> (\<exists>err. e = UploadRejected err)"
proof (cases e)
  case UploadFiles
  with assms show ?thesis
    by (auto simp: uploadFiles_busy)
qed (use assms in \<open>auto simp: handleFileSelect_def handleDrop_def split: if_splits\<close>)

lemma dp_single_step:
  assumes "dp_single y" and "dp_step e y = Some y'"
  shows "dp_single y'"
proof (cases e)
  case UploadFiles
  obtain s r where u: "uploadFiles (dp_component y) = (s, r)"
    by (cases "uploadFiles (dp_component y)")
  show ?thesis
  proof (cases r)
    case None
    with u have "s = dp_component y" by (simp add: uploadFiles_idle)
    with assms UploadFiles u None show ?thesis by (auto simp: dp_single_def)
  next
    case (Some req)
    with u have "\<not> uploading (dp_component y) \<and> uploading s"
      by (simp add: uploadFiles_issue)
    with assms UploadFiles u Some show ?thesis by (auto simp: dp_single_def)
  qed
next
  case (UploadResolved now data)
  with assms show ?thesis
    by (auto simp: dp_single_def Let_def split: list.splits)
next
  case (UploadRejected err)
  with assms show ?thesis
    by (auto simp: dp_single_def split: list.splits)
qed (use assms in \<open>auto simp: dp_single_def handleFileSelect_def handleDrop_def split: if_splits\<close>)

lemma dp_single_run: "dp_single y \<Longrightarrow> dp_run es y = Some y' \<Longrightarrow> dp_single y'"
proof (induction es arbitrary: y)
  case Nil
  then show ?case by simp
next
  case (Cons e es)
  then show ?case by (auto split: option.splits dest: dp_single_step)
qed

lemma dp_single_mounted: "dp_single (dp_mounted v)"
  by (simp add: dp_single_def dp_mounted_def dp_data_def)

lemma sendMessage_busy: "loading s \<Longrightarrow> sendMessage now s = (s, None)"
  by (simp add: sendMessage_def)

lemma sendMessage_issue:
  "sendMessage now s = (s', Some req) \<Longrightarrow> \<not> loading s \<and> loading s'"
  by (auto simp: sendMessage_def Let_def split: if_splits)

lemma sendMessage_idle: "sendMessage now s = (s', None) \<Longrightarrow> s' = s"
  by (auto simp: sendMessage_def Let_def split: if_splits)

lemma loading_then [simp]: "\<not> loading (sendMessage_then now data s)"
  by (simp add: sendMessage_then_def Let_def)

lemma loading_catch [simp]: "\<not> loading (sendMessage_catch now e s)"
  by (simp add: sendMessage_catch_def Let_def)

lemma chat_loading_cleared:
  assumes "chat_step e y = Some y'" and "loading (chat_component y)" and "\<not> loading (chat_component y')"
  shows "(\<exists>now data. e = ChatResolved now data) \<or> (\<exists>now err. e = ChatRejected now err)"
proof (cases e)
  case (SendMessage now)
  with assms show ?thesis
    by (auto simp: sendMessage_busy)
qed (use assms in auto)

lemma chat_single_step:
  assumes "chat_single y" and "chat_step e y = Some y'"
  shows "chat_single y'"
proof (cases e)
  case (SendMessage now)
  obtain s r where u: "sendMessage now (chat_component y) = (s, r)"
    by (cases "sendMessage now (chat_component y)")
  show ?thesis
  proof (cases r)
    case None
    with u have "s = chat_component y" by (simp add: sendMessage_idle)
    with assms SendMessage u None show ?thesis by (auto simp: chat_single_def)
  next
    case (Some req)
    with u have "\<not> loading (chat_component y) \<and> loading s"
      by (simp add: sendMessage_issue)
    with assms SendMessage u Some show ?thesis by (auto simp: chat_single_def)
  qed
next
  case (ChatResolved now data)
  with assms show ?thesis
    by (auto simp: chat_single_def split: list.splits)
next
  case (ChatRejected now err)
  with assms show ?thesis
    by (auto simp: chat_single_def split: list.splits)
qed (use assms in \<open>auto simp: chat_single_def\<close>)

lemma chat_single_run: "chat_single y \<Longrightarrow> chat_run es y = Some y' \<Longrightarrow> chat_single y'"
proof (induction es arbitrary: y)
  case Nil
  then show ?case by simp
next
  case (Cons e es)
  then show ?case by (auto split: option.splits dest: chat_single_step)
qed

lemma chat_single_mounted: "chat_single (chat_mounted v now)"
  by (simp add: chat_single_def chat_mounted_def chat_data_def mounted_def)

lemma dp_busy_run: "dp_run dp_busy_events (dp_mounted None) = Some dp_busy"
  by code_simp

lemma dp_idle_upload: "uploadFiles dp_idle = (dp_component dp_busy, Some two_files_request)"
  by code_simp

lemma dp_busy_rejected: "dp_step (UploadRejected network_error) dp_busy = Some dp_failed"
  by code_simp

lemma chat_busy_rejected: "chat_step (ChatRejected 4 network_error) chat_busy = Some chat_failed"
  by code_simp

lemma chat_busy_run: "chat_run chat_busy_events (chat_mounted None 1) = Some chat_busy"
  by code_simp

lemma chat_idle_send: "sendMessage 2 chat_idle = (chat_sent, Some hola_request)"
  by code_simp

text \<open>
  Claim C9. While \<open>uploading\<close> is set a call of \<open>uploadFiles\<close> changes nothing and
  issues no request, and so does a call of \<open>sendMessage\<close> while \<open>loading\<close> is set. A call
  that issues a request starts with the flag clear and leaves it set; the only events that
  clear a set flag are the settling of the request (response or error). So in every state
  that either component reaches there is at most one request in flight, and one is in
  flight exactly when the flag is set.
\<close>

theorem C9_single_request_in_flight:
  "(uploading s \<longrightarrow> uploadFiles s = (s, None)) \<and>
   (loading c \<longrightarrow> sendMessage now c = (c, None)) \<and>
   (uploadFiles s0 = (s1, Some upload_req) \<longrightarrow> \<not> uploading s0 \<and> uploading s1) \<and>
   (sendMessage now0 c0 = (c1, Some chat_req) \<longrightarrow> \<not> loading c0 \<and> loading c1) \<and>
   (dp_step dp_ev y0 = Some y1 \<and> uploading (dp_component y0) \<and> \<not> uploading (dp_component y1) \<longrightarrow>
      (\<exists>t data. dp_ev = UploadResolved t data) \<or> (\<exists>err. dp_ev = UploadRejected err)) \<and>
   (chat_step chat_ev z0 = Some z1 \<and> loading (chat_component z0) \<and> \<not> loading (chat_component z1) \<longrightarrow>
      (\<exists>t data. chat_ev = ChatResolved t data) \<or> (\<exists>t err. chat_ev = ChatRejected t err)) \<and>
   (dp_run dp_evs (dp_mounted vite_api_url) = Some y \<longrightarrow>
      length (dp_pending y) \<le> 1 \<and> (uploading (dp_component y) \<longleftrightarrow> dp_pending y \<noteq> [])) \<and>
   (chat_run chat_evs (chat_mounted vite_api_url mounted_at) = Some z \<longrightarrow>
      length (chat_pending z) \<le> 1 \<and> (loading (chat_component z) \<longleftrightarrow> chat_pending z \<noteq> []))"
proof -
  have dp_inv: "dp_run dp_evs (dp_mounted vite_api_url) = Some y \<longrightarrow> dp_single y"
    using dp_single_run [OF dp_single_mounted] by blast
  have chat_inv: "chat_run chat_evs (chat_mounted vite_api_url mounted_at) = Some z \<longrightarrow> chat_single z"
    using chat_single_run [OF chat_single_mounted] by blast
  have dp_clear: "dp_step dp_ev y0 = Some y1 \<and> uploading (dp_component y0) \<and> \<not> uploading (dp_component y1) \<longrightarrow>
      (\<exists>t data. dp_ev = UploadResolved t data) \<or> (\<exists>err. dp_ev = UploadRejected err)"
    using dp_uploading_cleared by blast
  have chat_clear: "chat_step chat_ev z0 = Some z1 \<and> loading (chat_component z0) \<and> \<not> loading (chat_component z1) \<longrightarrow>
      (\<exists>t data. chat_ev = ChatResolved t data) \<or> (\<exists>t err. chat_ev = ChatRejected t err)"
    using chat_loading_cleared by blast
  from dp_inv chat_inv dp_clear chat_clear show ?thesis
    unfolding dp_single_def chat_single_def
    using uploadFiles_busy [of s] sendMessage_busy [of c now]
      uploadFiles_issue [of s0 s1 upload_req] sendMessage_issue [of now0 c0 c1 chat_req]
    by blast
qed

text \<open>
  A fully successful upload starts the timer of its status, so the timer can fire in the
  runs that follow; the invariant holds on those runs too.
\<close>

lemma timer_started_run:
  "map_option dp_timers
     (dp_run [HandleFileSelect [pdf_a, pdf_b], UploadFiles, UploadResolved 9 (Arr [stored_a, stored_b])]
        (dp_mounted None)) = Some 1"
  by code_simp

lemma timer_events_run: "dp_run timer_events (dp_mounted None) = Some timer_result"
  by code_simp

theorem C9_single_request_in_flight_witness:
  "dp_run timer_events (dp_mounted None) = Some timer_result \<and>
   length (dp_pending timer_result) = 1 \<and> uploading (dp_component timer_result) \<and>
   dp_run dp_busy_events (dp_mounted None) = Some dp_busy \<and>
   length (dp_pending dp_busy) = 1 \<and> uploading (dp_component dp_busy) \<and>
   uploadFiles (dp_component dp_busy) = (dp_component dp_busy, None) \<and>
   uploadFiles dp_idle = (dp_component dp_busy, Some two_files_request) \<and>
   \<not> uploading dp_idle \<and>
   dp_step (UploadRejected network_error) dp_busy = Some dp_failed \<and>
   \<not> uploading (dp_component dp_failed) \<and>
   chat_run chat_busy_events (chat_mounted None 1) = Some chat_busy \<and>
   length (chat_pending chat_busy) = 1 \<and> loading (chat_component chat_busy) \<and>
   sendMessage 3 (chat_component chat_busy) = (chat_component chat_busy, None) \<and>
   sendMessage 2 chat_idle = (chat_sent, Some hola_request) \<and>
   \<not> loading chat_idle \<and>
   chat_step (ChatRejected 4 network_error) chat_busy = Some chat_failed \<and>
   \<not> loading (chat_component chat_failed)"
proof -
  note inst = C9_single_request_in_flight
    [of "dp_component dp_busy" "chat_component chat_busy" 3
        dp_idle "dp_component dp_busy" two_files_request
        2 chat_idle chat_sent hola_request
        "UploadRejected network_error" dp_busy dp_failed
        "ChatRejected 4 network_error" chat_busy chat_failed
        dp_busy_events None dp_busy
        chat_busy_events 1 chat_busy]
  have facts:
    "length (dp_pending dp_busy) = 1" "length (chat_pending chat_busy) = 1"
    "\<not> uploading (dp_component dp_failed)" "\<not> loading (chat_component chat_failed)"
    by (simp_all add: dp_busy_def chat_busy_def dp_failed_def chat_failed_def dp_idle_def chat_idle_def)
  have busy: "uploading (dp_component dp_busy)" "loading (chat_component chat_busy)"
    using inst dp_busy_run chat_busy_run facts by auto
  have timer_len: "length (dp_pending timer_result) = 1"
    by (simp add: timer_result_def)
  from C9_single_request_in_flight [of _ _ _ _ _ _ _ _ _ _ _ _ _ _ _ _ timer_events None timer_result]
    timer_events_run timer_len
  have timer_busy: "uploading (dp_component timer_result)"
    by auto
  from inst busy facts dp_busy_run chat_busy_run dp_idle_upload chat_idle_send
    dp_busy_rejected chat_busy_rejected timer_events_run timer_len timer_busy
  show ?thesis
    by blast
qed

section \<open>The chat request\<close>

lemma trim_blank:
  assumes "\<forall>ch \<in> set m. is_white_space ch"
  shows "trim m = []"
proof -
  from assms have "dropWhile is_white_space m = []"
    by (simp only: dropWhile_eq_Nil_conv)
  then show ?thesis by (simp only: trim_def rev.simps dropWhile.simps)
qed

lemma trim_Nil_blank:
  assumes "trim m = []"
  shows "\<forall>ch \<in> set m. is_white_space ch"
proof -
  let ?ys = "dropWhile is_white_space m"
  from assms have all: "\<forall>ch \<in> set ?ys. is_white_space ch"
    by (simp add: trim_def)
  have "?ys = []"
  proof (rule ccontr)
    assume ne: "?ys \<noteq> []"
    then have "\<not> is_white_space (hd ?ys)" by (rule hd_dropWhile)
    moreover from ne have "hd ?ys \<in> set ?ys" by simp
    ultimately show False using all by blast
  qed
  then show ?thesis by simp
qed

lemma trim_last: "trim m \<noteq> [] \<Longrightarrow> \<not> is_white_space (last (trim m))"
  by (simp add: trim_def last_rev hd_dropWhile)

lemma trim_hd:
  assumes "trim m \<noteq> []"
  shows "\<not> is_white_space (hd (trim m))"
proof -
  let ?ys = "dropWhile is_white_space m"
  have split: "?ys = trim m @ rev (takeWhile is_white_space (rev ?ys))"
  proof -
    have "rev (takeWhile is_white_space (rev ?ys) @ dropWhile is_white_space (rev ?ys)) = ?ys"
      by (simp only: takeWhile_dropWhile_id rev_rev_ident)
    then show ?thesis by (simp only: rev_append trim_def)
  qed
  with assms have ne: "?ys \<noteq> []" by (metis Nil_is_append_conv)
  from split assms have "hd ?ys = hd (trim m)"
    by (metis hd_append2)
  moreover from ne have "\<not> is_white_space (hd ?ys)" by (rule hd_dropWhile)
  ultimately show ?thesis by simp
qed

lemma sendMessage_blank:
  "(\<forall>ch \<in> set (currentMessage s). is_white_space ch) \<Longrightarrow> sendMessage now s = (s, None)"
  by (simp add: sendMessage_def trim_blank)

lemma sendMessage_body:
  assumes "sendMessage now s = (s', Some req)"
  shows "chat_body req =
           [(''question'', JString (trim (currentMessage s))),
            (''model'', JString (model s)),
            (''max_chunks'', JNumber (of_nat (maxChunks s))),
            (''temperature'', JNumber (temperature s))] @
           (if truthy (selectedFileId s) then [(''file_id'', JString (the (selectedFileId s)))] else [])"
    and "trim (currentMessage s) \<noteq> []"
    and "chat_url req = chat_apiUrl s @ ''/chat''"
  using assms
  by (auto simp: sendMessage_def Let_def truthy_def split: if_splits option.splits)

lemma sendMessage_state:
  assumes "sendMessage now s = (s', Some req)"
  shows "s' = s\<lparr>messages := messages s @
                   [\<lparr>message_type = user, content = trim (currentMessage s), sources = None,
                     modelUsed = None, timestamp = now\<rparr>],
                 currentMessage := [], loading := True\<rparr>"
  using assms
  by (auto simp: sendMessage_def Let_def split: if_splits)

text \<open>
  Claim C7. When the current message is empty or consists of white space only,
  \<open>sendMessage\<close> returns at once: no request is issued and the component, its message list
  included, is as before. Every request that is issued carries the trimmed message as its
  question, and that question is not empty and neither starts nor ends with white space.
\<close>

theorem C7_blank_question_not_sent:
  "((\<forall>ch \<in> set (currentMessage s). is_white_space ch) \<longrightarrow>
      sendMessage now s = (s, None) \<and>
      chat_step (SendMessage now) \<lparr>chat_component = s, chat_pending = reqs\<rparr> =
        Some \<lparr>chat_component = s, chat_pending = reqs\<rparr>) \<and>
   (sendMessage now s = (s', Some req) \<longrightarrow>
      map_of (chat_body req) ''question'' = Some (JString (trim (currentMessage s))) \<and>
      trim (currentMessage s) \<noteq> [] \<and>
      \<not> is_white_space (hd (trim (currentMessage s))) \<and>
      \<not> is_white_space (last (trim (currentMessage s))) \<and>
      \<not> (\<forall>ch \<in> set (currentMessage s). is_white_space ch))"
proof -
  have blank: "(\<forall>ch \<in> set (currentMessage s). is_white_space ch) \<longrightarrow>
      sendMessage now s = (s, None) \<and>
      chat_step (SendMessage now) \<lparr>chat_component = s, chat_pending = reqs\<rparr> =
        Some \<lparr>chat_component = s, chat_pending = reqs\<rparr>"
    by (simp add: sendMessage_blank)
  have sent: "sendMessage now s = (s', Some req) \<longrightarrow>
      map_of (chat_body req) ''question'' = Some (JString (trim (currentMessage s))) \<and>
      trim (currentMessage s) \<noteq> [] \<and>
      \<not> is_white_space (hd (trim (currentMessage s))) \<and>
      \<not> is_white_space (last (trim (currentMessage s))) \<and>
      \<not> (\<forall>ch \<in> set (currentMessage s). is_white_space ch)"
  proof
    assume a: "sendMessage now s = (s', Some req)"
    note body = sendMessage_body [OF a]
    from body(1) have q: "map_of (chat_body req) ''question'' = Some (JString (trim (currentMessage s)))"
      by simp
    from body(2) have "\<not> (\<forall>ch \<in> set (currentMessage s). is_white_space ch)"
      using trim_blank by blast
    with q body(2) trim_hd [OF body(2)] trim_last [OF body(2)]
    show "map_of (chat_body req) ''question'' = Some (JString (trim (currentMessage s))) \<and>
      trim (currentMessage s) \<noteq> [] \<and>
      \<not> is_white_space (hd (trim (currentMessage s))) \<and>
      \<not> is_white_space (last (trim (currentMessage s))) \<and>
      \<not> (\<forall>ch \<in> set (currentMessage s). is_white_space ch)"
      by blast
  qed
  from blank sent show ?thesis by blast
qed

lemma chat_blank_white: "\<forall>ch \<in> set (currentMessage chat_blank). is_white_space ch"
  by code_simp

lemma chat_idle_trim: "trim (currentMessage chat_idle) = ''hola''"
  by code_simp

theorem C7_blank_question_not_sent_witness:
  "list_all is_white_space (currentMessage chat_blank) \<and>
   sendMessage 2 chat_blank = (chat_blank, None) \<and>
   chat_step (SendMessage 2) \<lparr>chat_component = chat_blank, chat_pending = []\<rparr> =
     Some \<lparr>chat_component = chat_blank, chat_pending = []\<rparr> \<and>
   sendMessage 2 chat_idle = (chat_sent, Some hola_request) \<and>
   map_of (chat_body hola_request) ''question'' = Some (JString ''hola'') \<and>
   ''hola'' \<noteq> []"
proof -
  from C7_blank_question_not_sent [of chat_blank 2 "[]"] chat_blank_white
  have blank: "sendMessage 2 chat_blank = (chat_blank, None) \<and>
      chat_step (SendMessage 2) \<lparr>chat_component = chat_blank, chat_pending = []\<rparr> =
        Some \<lparr>chat_component = chat_blank, chat_pending = []\<rparr>"
    by blast
  from C7_blank_question_not_sent [of chat_idle 2 "[]" chat_sent hola_request] chat_idle_send
  have "map_of (chat_body hola_request) ''question'' = Some (JString (trim (currentMessage chat_idle)))"
    by blast
  with blank chat_blank_white chat_idle_send show ?thesis
    by (simp add: chat_idle_trim list_all_iff)
qed

lemma chat_config_step:
  assumes "chat_step e y = Some y'"
  shows "chat_config (chat_component y') = chat_config (chat_component y)"
proof (cases e)
  case (SendMessage now)
  with assms show ?thesis
    by (auto simp: chat_config_def sendMessage_def Let_def split: if_splits)
qed (use assms in \<open>auto simp: chat_config_def sendMessage_then_def sendMessage_catch_def Let_def
       split: list.splits\<close>)

lemma chat_config_run:
  "chat_run es y = Some y' \<Longrightarrow> chat_config (chat_component y') = chat_config (chat_component y)"
proof (induction es arbitrary: y)
  case Nil
  then show ?case by simp
next
  case (Cons e es)
  then show ?case by (auto split: option.splits dest: chat_config_step)
qed

lemma chat_config_mounted:
  "chat_config (chat_component (chat_mounted v t)) = (''mistral:7b-instruct'', 5, 7 / 10, None)"
  by (simp add: chat_config_def chat_mounted_def mounted_def chat_data_def)

text \<open>
  Claim C3. The body of every request of \<open>sendMessage\<close> holds the trimmed message as
  \<open>question\<close> and the fields \<open>model\<close>, \<open>max_chunks\<close> and \<open>temperature\<close> of the component, and
  it has a field \<open>file_id\<close> exactly when \<open>selectedFileId\<close> is set (then with that value).
  No event changes the four settings, so in every state the component reaches the body is
  the question with the model \<open>mistral:7b-instruct\<close>, 5 chunks and temperature 0.7, each
  written into the request.
\<close>

theorem C3_request_defaults:
  "(sendMessage now s = (s', Some req) \<longrightarrow>
      map_of (chat_body req) ''question'' = Some (JString (trim (currentMessage s))) \<and>
      map_of (chat_body req) ''model'' = Some (JString (model s)) \<and>
      map_of (chat_body req) ''max_chunks'' = Some (JNumber (of_nat (maxChunks s))) \<and>
      map_of (chat_body req) ''temperature'' = Some (JNumber (temperature s)) \<and>
      (''file_id'' \<in> fst ` set (chat_body req) \<longleftrightarrow> truthy (selectedFileId s)) \<and>
      (truthy (selectedFileId s) \<longrightarrow>
         map_of (chat_body req) ''file_id'' = map_option JString (selectedFileId s))) \<and>
   (chat_run es (chat_mounted vite_api_url mounted_at) = Some z \<and>
    sendMessage now' (chat_component z) = (s'', Some req') \<longrightarrow>
      chat_body req' =
        [(''question'', JString (trim (currentMessage (chat_component z)))),
         (''model'', JString ''mistral:7b-instruct''),
         (''max_chunks'', JNumber 5),
         (''temperature'', JNumber (7 / 10))])"
proof -
  have any: "sendMessage now s = (s', Some req) \<longrightarrow>
      map_of (chat_body req) ''question'' = Some (JString (trim (currentMessage s))) \<and>
      map_of (chat_body req) ''model'' = Some (JString (model s)) \<and>
      map_of (chat_body req) ''max_chunks'' = Some (JNumber (of_nat (maxChunks s))) \<and>
      map_of (chat_body req) ''temperature'' = Some (JNumber (temperature s)) \<and>
      (''file_id'' \<in> fst ` set (chat_body req) \<longleftrightarrow> truthy (selectedFileId s)) \<and>
      (truthy (selectedFileId s) \<longrightarrow>
         map_of (chat_body req) ''file_id'' = map_option JString (selectedFileId s))"
  proof
    assume a: "sendMessage now s = (s', Some req)"
    show "map_of (chat_body req) ''question'' = Some (JString (trim (currentMessage s))) \<and>
      map_of (chat_body req) ''model'' = Some (JString (model s)) \<and>
      map_of (chat_body req) ''max_chunks'' = Some (JNumber (of_nat (maxChunks s))) \<and>
      map_of (chat_body req) ''temperature'' = Some (JNumber (temperature s)) \<and>
      (''file_id'' \<in> fst ` set (chat_body req) \<longleftrightarrow> truthy (selectedFileId s)) \<and>
      (truthy (selectedFileId s) \<longrightarrow>
         map_of (chat_body req) ''file_id'' = map_option JString (selectedFileId s))"
      by (auto simp: sendMessage_body(1) [OF a] truthy_def split: option.splits)
  qed
  have reached: "chat_run es (chat_mounted vite_api_url mounted_at) = Some z \<and>
    sendMessage now' (chat_component z) = (s'', Some req') \<longrightarrow>
      chat_body req' =
        [(''question'', JString (trim (currentMessage (chat_component z)))),
         (''model'', JString ''mistral:7b-instruct''),
         (''max_chunks'', JNumber 5),
         (''temperature'', JNumber (7 / 10))]"
  proof
    assume a: "chat_run es (chat_mounted vite_api_url mounted_at) = Some z \<and>
      sendMessage now' (chat_component z) = (s'', Some req')"
    then have "chat_config (chat_component z) = (''mistral:7b-instruct'', 5, 7 / 10, None)"
      using chat_config_run [of es "chat_mounted vite_api_url mounted_at" z]
      by (simp add: chat_config_mounted)
    then have cfg: "model (chat_component z) = ''mistral:7b-instruct''"
      "maxChunks (chat_component z) = 5" "temperature (chat_component z) = 7 / 10"
      "selectedFileId (chat_component z) = None"
      by (simp_all add: chat_config_def)
    from a have "sendMessage now' (chat_component z) = (s'', Some req')" by simp
    from sendMessage_body(1) [OF this] cfg
    show "chat_body req' =
        [(''question'', JString (trim (currentMessage (chat_component z)))),
         (''model'', JString ''mistral:7b-instruct''),
         (''max_chunks'', JNumber 5),
         (''temperature'', JNumber (7 / 10))]"
      by (simp add: truthy_def)
  qed
  from any reached show ?thesis by blast
qed

lemma chat_filtered_send:
  "sendMessage 2 chat_filtered = (chat_sent\<lparr>selectedFileId := Some ''550e8400''\<rparr>, Some filtered_request)"
  by code_simp

lemma chat_idle_run: "chat_run [Typed ''  hola ''] (chat_mounted None 1) = Some \<lparr>chat_component = chat_idle, chat_pending = []\<rparr>"
  by code_simp

theorem C3_request_defaults_witness:
  "sendMessage 2 chat_filtered = (chat_sent\<lparr>selectedFileId := Some ''550e8400''\<rparr>, Some filtered_request) \<and>
   truthy (selectedFileId chat_filtered) \<and>
   map_of (chat_body filtered_request) ''file_id'' = Some (JString ''550e8400'') \<and>
   chat_run [Typed ''  hola ''] (chat_mounted None 1) = Some \<lparr>chat_component = chat_idle, chat_pending = []\<rparr> \<and>
   sendMessage 2 chat_idle = (chat_sent, Some hola_request) \<and>
   chat_body hola_request =
     [(''question'', JString ''hola''), (''model'', JString ''mistral:7b-instruct''),
      (''max_chunks'', JNumber 5), (''temperature'', JNumber (7 / 10))]"
proof -
  have t: "truthy (selectedFileId chat_filtered)"
    by (simp add: truthy_def chat_filtered_def)
  from C3_request_defaults [of 2 chat_filtered "chat_sent\<lparr>selectedFileId := Some ''550e8400''\<rparr>" filtered_request]
    chat_filtered_send t
  have "map_of (chat_body filtered_request) ''file_id'' = map_option JString (selectedFileId chat_filtered)"
    by blast
  then have f: "map_of (chat_body filtered_request) ''file_id'' = Some (JString ''550e8400'')"
    by (simp add: chat_filtered_def)
  from C3_request_defaults [of _ _ _ _ "[Typed ''  hola '']" None 1
      "\<lparr>chat_component = chat_idle, chat_pending = []\<rparr>" 2 chat_sent hola_request]
    chat_idle_run chat_idle_send
  have "chat_body hola_request =
        [(''question'', JString (trim (currentMessage chat_idle))),
         (''model'', JString ''mistral:7b-instruct''),
         (''max_chunks'', JNumber 5),
         (''temperature'', JNumber (7 / 10))]"
    by simp
  with t f chat_filtered_send chat_idle_run chat_idle_send show ?thesis
    by (simp add: chat_idle_trim)
qed

section \<open>Chat responses and faults\<close>

lemma render_sources_stored:
  "render_sources to_fixed1
     \<lparr>message_type = t, content = c, sources = Some xs, modelUsed = m, timestamp = now\<rparr> =
   (if xs = [] then None
    else Some (map (\<lambda>x. (source_filename x,
                          ''Relevancia: '' @ to_fixed1 (relevance_score x * 100) @ ''%'')) xs))"
  by (simp add: render_sources_def)

lemma messages_sendMessage:
  "sendMessage now s = (s', r) \<Longrightarrow> take (length (messages s)) (messages s') = messages s"
  by (auto simp: sendMessage_def Let_def split: if_splits)

lemma messages_step:
  assumes "chat_step e y = Some y'"
  shows "take (length (messages (chat_component y))) (messages (chat_component y')) =
         messages (chat_component y)"
proof (cases e)
  case (SendMessage now)
  obtain s r where u: "sendMessage now (chat_component y) = (s, r)"
    by (cases "sendMessage now (chat_component y)")
  with assms SendMessage have "chat_component y' = s"
    by (auto split: option.splits)
  with messages_sendMessage [OF u] show ?thesis by simp
qed (use assms in \<open>auto simp: sendMessage_then_def sendMessage_catch_def Let_def
       split: list.splits\<close>)

text \<open>
  Claim C6. On a response with a success status the assistant message that is appended
  stores the \<open>sources\<close> of the response as they are, in the same order, and the empty
  sequence when the field is missing. The template shows one row for each stored source,
  in that order, with its file name and its relevance score. No later event changes a
  message that is in the list: the list only grows at its end.
\<close>

theorem C6_sources_stored_in_order:
  "messages (sendMessage_then now data s) =
     messages s @
     [\<lparr>message_type = assistant,
       content = or_else (answer data) ''Respuesta recibida'',
       sources = Some (case response_sources data of None \<Rightarrow> [] | Some xs \<Rightarrow> xs),
       modelUsed = model_used data,
       timestamp = now\<rparr>] \<and>
   render_sources to_fixed1 (last (messages (sendMessage_then now data s))) =
     (case response_sources data of
        None \<Rightarrow> None
      | Some xs \<Rightarrow>
          if xs = [] then None
          else Some (map (\<lambda>x. (source_filename x,
                                ''Relevancia: '' @ to_fixed1 (relevance_score x * 100) @ ''%'')) xs)) \<and>
   (chat_step e y = Some y' \<longrightarrow>
      take (length (messages (chat_component y))) (messages (chat_component y')) =
        messages (chat_component y))"
proof -
  have stored: "messages (sendMessage_then now data s) =
     messages s @
     [\<lparr>message_type = assistant,
       content = or_else (answer data) ''Respuesta recibida'',
       sources = Some (case response_sources data of None \<Rightarrow> [] | Some xs \<Rightarrow> xs),
       modelUsed = model_used data,
       timestamp = now\<rparr>]"
    by (simp add: sendMessage_then_def Let_def sources_or_empty_def)
  have shown: "render_sources to_fixed1 (last (messages (sendMessage_then now data s))) =
     (case response_sources data of
        None \<Rightarrow> None
      | Some xs \<Rightarrow>
          if xs = [] then None
          else Some (map (\<lambda>x. (source_filename x,
                                ''Relevancia: '' @ to_fixed1 (relevance_score x * 100) @ ''%'')) xs))"
    unfolding stored by (simp add: render_sources_stored split: option.splits)
  from stored shown messages_step [of e y y'] show ?thesis
    by blast
qed

lemma chat_busy_resolved:
  "chat_step (ChatResolved 5 two_sources_response) chat_busy = Some chat_answered"
  by code_simp

lemma toFixed1_30: "toFixed1 30 = Some ''30.0''"
  by code_simp

lemma toFixed1_90: "toFixed1 90 = Some ''90.0''"
  by code_simp

theorem C6_sources_stored_in_order_witness:
  "chat_step (ChatResolved 5 two_sources_response) chat_busy = Some chat_answered \<and>
   take 2 (messages (chat_component chat_answered)) = messages (chat_component chat_busy) \<and>
   sources (last (messages (sendMessage_then 5 two_sources_response chat_sent))) =
     Some [source_low, source_high] \<and>
   render_sources (\<lambda>x. the (toFixed1 x)) (last (messages (sendMessage_then 5 two_sources_response chat_sent))) =
     Some [(''contrato.pdf'', ''Relevancia: 30.0%''),
           (''anexo.pdf'', ''Relevancia: 90.0%'')]"
proof -
  note inst = C6_sources_stored_in_order
    [of 5 two_sources_response chat_sent "\<lambda>x. the (toFixed1 x)" "ChatResolved 5 two_sources_response"
        chat_busy chat_answered]
  have len: "length (messages (chat_component chat_busy)) = 2"
    by (simp add: chat_busy_def chat_sent_def)
  from inst chat_busy_resolved len
  have kept: "take 2 (messages (chat_component chat_answered)) = messages (chat_component chat_busy)"
    by simp
  from inst
  have st: "messages (sendMessage_then 5 two_sources_response chat_sent) =
     messages chat_sent @
     [\<lparr>message_type = assistant,
       content = or_else (answer two_sources_response) ''Respuesta recibida'',
       sources = Some (case response_sources two_sources_response of None \<Rightarrow> [] | Some xs \<Rightarrow> xs),
       modelUsed = model_used two_sources_response,
       timestamp = 5\<rparr>]"
    by (rule conjunct1)
  have stored: "sources (last (messages (sendMessage_then 5 two_sources_response chat_sent))) =
     Some [source_low, source_high]"
    unfolding st by (simp add: two_sources_response_def)
  from inst
  have rs: "render_sources (\<lambda>x. the (toFixed1 x)) (last (messages (sendMessage_then 5 two_sources_response chat_sent))) =
     (case response_sources two_sources_response of
        None \<Rightarrow> None
      | Some xs \<Rightarrow>
          if xs = [] then None
          else Some (map (\<lambda>x. (source_filename x,
                                ''Relevancia: '' @ the (toFixed1 (relevance_score x * 100)) @ ''%'')) xs))"
    by blast
  have shown: "render_sources (\<lambda>x. the (toFixed1 x)) (last (messages (sendMessage_then 5 two_sources_response chat_sent))) =
     Some [(''contrato.pdf'', ''Relevancia: 30.0%''),
           (''anexo.pdf'', ''Relevancia: 90.0%'')]"
    unfolding rs by (simp add: two_sources_response_def source_low_def source_high_def toFixed1_30 toFixed1_90)
  from chat_busy_resolved kept stored shown show ?thesis
    by blast
qed

lemma or_else_nonempty: "fallback \<noteq> [] \<Longrightarrow> or_else v fallback \<noteq> []"
  by (simp add: or_else_def split: option.splits)

lemma errorMessage_nonempty: "errorMessage e \<noteq> []"
  by (simp add: errorMessage_def Let_def or_else_nonempty split: option.splits)

lemma errorMessage_detail:
  "response e = Some r \<Longrightarrow> truthy (detail r) \<Longrightarrow> detail r = Some (errorMessage e)"
  by (auto simp: errorMessage_def Let_def or_else_def truthy_def split: option.splits)

lemma errorMessage_builtin:
  assumes "response e = Some r" and "\<not> truthy (detail r)"
  shows "errorMessage e =
     (if status r = 404
      then ''No se encontraron documentos relevantes. Aseg'' @ [u_acute]
             @ ''rate de haber subido y procesado documentos.''
      else if status r = 400
      then ''Error en la solicitud. Verifica que el documento est'' @ [e_acute] @ '' procesado.''
      else if status r = 503
      then ''El modelo no est'' @ [a_acute] @ '' disponible. Verifica que est''
             @ [e_acute] @ '' instalado en Ollama.''
      else ''Error al procesar tu mensaje. Por favor, intenta de nuevo.'')"
  using assms
  by (auto simp: errorMessage_def Let_def or_else_def truthy_def split: option.splits)

lemma errorMessage_distinct:
  assumes "response e = Some r" and "\<not> truthy (detail r)"
    and "response e' = Some r'" and "\<not> truthy (detail r')"
    and "status r = 404 \<or> status r = 400 \<or> status r = 503"
    and "status r' = 404 \<or> status r' = 400 \<or> status r' = 503"
    and "status r \<noteq> status r'"
  shows "errorMessage e \<noteq> errorMessage e'"
  unfolding errorMessage_builtin [OF assms(1,2)] errorMessage_builtin [OF assms(3,4)]
  using assms(5-7) by auto

text \<open>
  Claim C4 does not hold as it is stated: the message shown is the \<open>detail\<close> of the error
  response whenever there is one, so a 404 and a 400 with the same detail give the same
  message.
\<close>

theorem C4_same_detail_counterexample:
  "content (last (messages (sendMessage_catch 4 (http_error 404 (Some ''Fallo interno'')) chat_sent))) =
     ''Fallo interno'' \<and>
   content (last (messages (sendMessage_catch 4 (http_error 400 (Some ''Fallo interno'')) chat_sent))) =
     ''Fallo interno''"
  by (simp add: sendMessage_catch_def errorMessage_def http_error_def or_else_def Let_def)

text \<open>
  Claim C4, amended. For a call that fails with an HTTP error status \<open>sendMessage\<close> appends
  exactly one message, of type \<open>error\<close>, never an assistant message, and its text is not
  empty: it is the \<open>detail\<close> of the response when that is a non-empty string, and otherwise
  a built-in text, where the texts for 404, 400 and 503 differ from one another.
\<close>

theorem C4_fault_surfaced:
  "response e = Some r \<longrightarrow>
     messages (sendMessage_catch now e s) =
       messages s @
       [\<lparr>message_type = error, content = errorMessage e, sources = None, modelUsed = None,
         timestamp = now\<rparr>] \<and>
     errorMessage e \<noteq> [] \<and>
     (truthy (detail r) \<longrightarrow> detail r = Some (errorMessage e)) \<and>
     (\<not> truthy (detail r) \<and> response e' = Some r' \<and> \<not> truthy (detail r') \<and>
      (status r = 404 \<or> status r = 400 \<or> status r = 503) \<and>
      (status r' = 404 \<or> status r' = 400 \<or> status r' = 503) \<and>
      status r \<noteq> status r' \<longrightarrow>
        errorMessage e \<noteq> errorMessage e')"
proof
  assume r: "response e = Some r"
  have one: "messages (sendMessage_catch now e s) =
       messages s @
       [\<lparr>message_type = error, content = errorMessage e, sources = None, modelUsed = None,
         timestamp = now\<rparr>]"
    by (simp add: sendMessage_catch_def Let_def)
  from one errorMessage_nonempty [of e] errorMessage_detail [OF r]
    errorMessage_distinct [OF r, of e' r']
  show "messages (sendMessage_catch now e s) =
       messages s @
       [\<lparr>message_type = error, content = errorMessage e, sources = None, modelUsed = None,
         timestamp = now\<rparr>] \<and>
     errorMessage e \<noteq> [] \<and>
     (truthy (detail r) \<longrightarrow> detail r = Some (errorMessage e)) \<and>
     (\<not> truthy (detail r) \<and> response e' = Some r' \<and> \<not> truthy (detail r') \<and>
      (status r = 404 \<or> status r = 400 \<or> status r = 503) \<and>
      (status r' = 404 \<or> status r' = 400 \<or> status r' = 503) \<and>
      status r \<noteq> status r' \<longrightarrow>
        errorMessage e \<noteq> errorMessage e')"
    by blast
qed

theorem C4_fault_surfaced_witness:
  "response (http_error 404 None) = Some \<lparr>status = 404, detail = None\<rparr> \<and>
   response (http_error 503 (Some [])) = Some \<lparr>status = 503, detail = Some []\<rparr> \<and>
   messages (sendMessage_catch 4 (http_error 404 None) chat_sent) =
     messages chat_sent @
     [\<lparr>message_type = error, content = errorMessage (http_error 404 None), sources = None,
       modelUsed = None, timestamp = 4\<rparr>] \<and>
   errorMessage (http_error 404 None) \<noteq> errorMessage (http_error 503 (Some [])) \<and>
   response (http_error 400 (Some ''Fallo interno'')) =
     Some \<lparr>status = 400, detail = Some ''Fallo interno''\<rparr> \<and>
   errorMessage (http_error 400 (Some ''Fallo interno'')) = ''Fallo interno''"
proof -
  have r1: "response (http_error 404 None) = Some \<lparr>status = 404, detail = None\<rparr>"
    and r2: "response (http_error 503 (Some [])) = Some \<lparr>status = 503, detail = Some []\<rparr>"
    and r3: "response (http_error 400 (Some ''Fallo interno'')) =
       Some \<lparr>status = 400, detail = Some ''Fallo interno''\<rparr>"
    by (simp_all add: http_error_def)
  have falsy: "\<not> truthy (detail \<lparr>status = 404, detail = None\<rparr>)"
    "\<not> truthy (detail \<lparr>status = 503, detail = Some []\<rparr>)"
    and truthy: "truthy (detail \<lparr>status = 400, detail = Some ''Fallo interno''\<rparr>)"
    by (simp_all add: truthy_def)
  note a = C4_fault_surfaced [of "http_error 404 None" "\<lparr>status = 404, detail = None\<rparr>" 4 chat_sent
      "http_error 503 (Some [])" "\<lparr>status = 503, detail = Some []\<rparr>"]
  note b = C4_fault_surfaced [of "http_error 400 (Some ''Fallo interno'')"
      "\<lparr>status = 400, detail = Some ''Fallo interno''\<rparr>" 4 chat_sent]
  from a r1 r2 falsy
  have first: "messages (sendMessage_catch 4 (http_error 404 None) chat_sent) =
     messages chat_sent @
     [\<lparr>message_type = error, content = errorMessage (http_error 404 None), sources = None,
       modelUsed = None, timestamp = 4\<rparr>]"
    and second: "errorMessage (http_error 404 None) \<noteq> errorMessage (http_error 503 (Some []))"
    by simp_all
  from b r3 truthy
  have third: "errorMessage (http_error 400 (Some ''Fallo interno'')) = ''Fallo interno''"
    by simp
  from r1 r2 r3 first second third show ?thesis
    by blast
qed

section \<open>Which files the document processor accepts\<close>

lemma split_js_length: "length (split_js sep s) = Suc (length (filter (\<lambda>c. c = sep) s))"
  by (induction s) (auto split: list.splits)

lemma split_js_not_Nil: "split_js sep s \<noteq> []"
  using split_js_length [of sep s] by auto

lemma split_js_single: "sep \<notin> set s \<Longrightarrow> split_js sep s = [s]"
  by (induction s) (auto split: list.splits)

lemma split_js_many: "sep \<in> set s \<Longrightarrow> tl (split_js sep s) \<noteq> []"
proof -
  assume "sep \<in> set s"
  then have "filter (\<lambda>c. c = sep) s \<noteq> []"
    by (auto simp: filter_empty_conv)
  then have "length (split_js sep s) \<ge> 2"
    by (cases "filter (\<lambda>c. c = sep) s") (simp_all add: split_js_length)
  then show ?thesis
    by (cases "split_js sep s") auto
qed

lemma last_split_js: "last (split_js sep s) = rev (takeWhile (\<lambda>c. c \<noteq> sep) (rev s))"
proof (induction s)
  case Nil
  show ?case by simp
next
  case (Cons c cs)
  show ?case
  proof (cases "c = sep")
    case True
    then show ?thesis
      using Cons.IH split_js_not_Nil [of sep cs]
      by (simp add: takeWhile_tail)
  next
    case False
    show ?thesis
    proof (cases "sep \<in> set cs")
      case True
      obtain p ps where sp: "split_js sep cs = p # ps"
        using split_js_not_Nil [of sep cs] by (cases "split_js sep cs") auto
      with split_js_many [OF True] have "ps \<noteq> []" by simp
      with sp False have "last (split_js sep (c # cs)) = last (split_js sep cs)"
        by simp
      moreover from True have "takeWhile (\<lambda>c. c \<noteq> sep) (rev cs @ [c]) = takeWhile (\<lambda>c. c \<noteq> sep) (rev cs)"
        by (intro takeWhile_append1 [of sep]) auto
      ultimately show ?thesis using Cons.IH by simp
    next
      case notin: False
      then have one: "split_js sep (c # cs) = [c # cs]"
        using False split_js_single [of sep "c # cs"] by simp
      from notin False have all: "takeWhile (\<lambda>c. c \<noteq> sep) (rev (c # cs)) = rev (c # cs)"
        by (auto simp: takeWhile_eq_all_conv)
      show ?thesis
        unfolding one all by (simp only: last.simps rev_rev_ident simp_thms if_True)
    qed
  qed
qed

lemma toLowerCase_char_dot: "toLowerCase_char c = CHR ''.'' \<longleftrightarrow> c = CHR ''.''"
proof
  assume a: "toLowerCase_char c = CHR ''.''"
  show "c = CHR ''.''"
  proof (rule ccontr)
    assume ne: "c \<noteq> CHR ''.''"
    with a have up: "(65 \<le> (of_char c :: nat) \<and> (of_char c :: nat) \<le> 90) \<or>
        (192 \<le> (of_char c :: nat) \<and> (of_char c :: nat) \<le> 222 \<and> (of_char c :: nat) \<noteq> 215)"
      and eq: "char_of ((of_char c :: nat) + 32) = CHR ''.''"
      by (auto simp: toLowerCase_char_def Let_def split: if_splits)
    from eq have "(of_char (char_of ((of_char c :: nat) + 32)) :: nat) = of_char CHR ''.''"
      by simp
    then have m: "((of_char c :: nat) + 32) mod 256 = 46"
      by (simp add: of_char_of)
    from up have "(of_char c :: nat) + 32 < 256" by linarith
    then have "((of_char c :: nat) + 32) mod 256 = of_char c + 32" by simp
    with m have "(of_char c :: nat) + 32 = 46" by simp
    with up show False by linarith
  qed
next
  assume "c = CHR ''.''"
  then show "toLowerCase_char c = CHR ''.''"
    by (simp add: toLowerCase_char_def)
qed

lemma toLowerCase_takeWhile:
  "takeWhile (\<lambda>c. c \<noteq> CHR ''.'') (toLowerCase s) = toLowerCase (takeWhile (\<lambda>c. c \<noteq> CHR ''.'') s)"
  by (induction s) (simp_all add: toLowerCase_def toLowerCase_char_dot)

lemma toLowerCase_rev: "toLowerCase (rev s) = rev (toLowerCase s)"
  by (simp add: toLowerCase_def rev_map)

lemma extension_eq:
  "extension f = Some (''.'' @ rev (takeWhile (\<lambda>c. c \<noteq> CHR ''.'') (rev (toLowerCase (name f)))))"
  by (simp add: extension_def pop_def split_js_not_Nil last_split_js
      toLowerCase_rev [symmetric] toLowerCase_takeWhile)

lemma endsWith_iff: "endsWith s t \<longleftrightarrow> (\<exists>p. s = p @ t)"
proof
  assume "endsWith s t"
  then have "s = take (length s - length t) s @ t"
    by (metis append_take_drop_id endsWith_def)
  then show "\<exists>p. s = p @ t" ..
next
  assume "\<exists>p. s = p @ t"
  then show "endsWith s t" by (auto simp: endsWith_def)
qed

lemma last_piece_pdf:
  "takeWhile (\<lambda>c. c \<noteq> CHR ''.'') (rev s) = rev ''pdf'' \<longleftrightarrow> endsWith s ''.pdf'' \<or> s = ''pdf''"
proof
  assume a: "takeWhile (\<lambda>c. c \<noteq> CHR ''.'') (rev s) = rev ''pdf''"
  let ?d = "dropWhile (\<lambda>c. c \<noteq> CHR ''.'') (rev s)"
  have sp: "rev s = rev ''pdf'' @ ?d"
    using takeWhile_dropWhile_id [of "\<lambda>c. c \<noteq> CHR ''.''" "rev s"] a by simp
  show "endsWith s ''.pdf'' \<or> s = ''pdf''"
  proof (cases ?d)
    case Nil
    with sp have "rev s = rev ''pdf''" by simp
    then have "s = ''pdf''" by (simp only: rev_is_rev_conv)
    then show ?thesis by simp
  next
    case (Cons x xs)
    then have "\<not> x \<noteq> CHR ''.''"
      using hd_dropWhile [of "\<lambda>c. c \<noteq> CHR ''.''" "rev s"] by auto
    with Cons sp have "rev s = rev ''pdf'' @ CHR ''.'' # xs" by simp
    then have "rev (rev s) = rev (rev ''pdf'' @ CHR ''.'' # xs)" by (rule arg_cong)
    then have "s = rev xs @ ''.pdf''" by simp
    then show ?thesis by (auto simp: endsWith_iff)
  qed
next
  assume "endsWith s ''.pdf'' \<or> s = ''pdf''"
  then show "takeWhile (\<lambda>c. c \<noteq> CHR ''.'') (rev s) = rev ''pdf''"
    by (auto simp: endsWith_iff)
qed

lemma extension_pdf:
  "extension f = Some ''.pdf'' \<longleftrightarrow>
     endsWith (toLowerCase (name f)) ''.pdf'' \<or> toLowerCase (name f) = ''pdf''"
proof -
  have "extension f = Some ''.pdf'' \<longleftrightarrow>
        rev (takeWhile (\<lambda>c. c \<noteq> CHR ''.'') (rev (toLowerCase (name f)))) = ''pdf''"
    by (simp add: extension_eq)
  also have "\<dots> \<longleftrightarrow> takeWhile (\<lambda>c. c \<noteq> CHR ''.'') (rev (toLowerCase (name f))) = rev ''pdf''"
    by (metis rev_rev_ident)
  finally show ?thesis by (simp only: last_piece_pdf)
qed

text \<open>
  The two filters of the component differ on one kind of name. \<open>handleDrop\<close> asks whether the
  lower-cased name ends with \<open>.pdf\<close>; \<open>addFiles\<close> takes the piece after the last dot, and for
  a name without a dot that piece is the whole name, so a file named \<open>pdf\<close> (in any case)
  passes whatever its type.
\<close>

lemma addFiles_valid_iff:
  "addFiles_valid f \<longleftrightarrow> handleDrop_valid f \<or> toLowerCase (name f) = ''pdf''"
  by (auto simp: addFiles_valid_def handleDrop_valid_def allowedType_def allowedExtension_def
      extension_pdf)

lemma set_push_new: "set (push_new up fs) \<subseteq> set up \<union> set fs"
proof (induction fs arbitrary: up)
  case Nil
  show ?case by simp
next
  case (Cons f fs)
  have "set (push_new (if \<not> exists_in up f then up @ [f] else up) fs) \<subseteq>
        set (if \<not> exists_in up f then up @ [f] else up) \<union> set fs"
    by (rule Cons.IH)
  then show ?case by (auto split: if_splits)
qed

lemma addFiles_accepts:
  assumes "f \<in> set (uploadedFiles (addFiles files s))" and "f \<notin> set (uploadedFiles s)"
  shows "f \<in> set files \<and> addFiles_valid f"
proof -
  from assms have "uploadedFiles (addFiles files s) = push_new (uploadedFiles s) (filter addFiles_valid files)"
    using uploadedFiles_addFiles [of files s] by auto
  with assms set_push_new [of "uploadedFiles s" "filter addFiles_valid files"]
  show ?thesis by auto
qed

lemma addFiles_none_valid:
  assumes "files \<noteq> []" and "filter addFiles_valid files = []"
  shows "addFiles files s =
         s\<lparr>uploadStatus := Some \<lparr>status_kind = Error,
                                  message = ''Por favor, selecciona solo archivos PDF''\<rparr>\<rparr>"
  using assms by (simp add: addFiles_def showStatus_def)

lemma uploadFiles_form:
  "uploadFiles s = (s', Some req) \<Longrightarrow> map snd (up_form req) = uploadedFiles s"
  by (auto simp: uploadFiles_def Let_def comp_def split: if_splits)

text \<open>
  Claim C1 does not hold as it is stated: the error status is guarded by
  \<open>files.length > 0\<close>, so for the empty list, where no file is valid, no status is shown.
  This is the list that \<open>handleDrop\<close> passes on when only files that are not PDFs are
  dropped.
\<close>

theorem C1_empty_list_counterexample:
  "filter addFiles_valid [] = [] \<and>
   uploadStatus (addFiles [] (dp_data None)) = None \<and>
   uploadStatus (handleDrop [\<lparr>name = ''virus.exe'', type = ''application/x-msdownload'', fsize = 7\<rparr>]
                   (dp_data None)) = None"
  by code_simp

text \<open>
  Claim C1, amended. For every list passed to \<open>addFiles\<close> and every file whose lower-cased
  name is not the bare word \<open>pdf\<close>: the file enters the pending list only if it is in the
  list passed and its type is \<open>application/pdf\<close> or its lower-cased name ends with \<open>.pdf\<close>,
  and a file that is neither stays out. When the list passed is not empty and holds only
  such files that are neither, the error status is shown and the pending list is unchanged.
  An upload request, to either endpoint, carries the files of the pending list and no
  others.
\<close>

theorem C1_only_pdf_accepted:
  "(f \<in> set (uploadedFiles (addFiles files s)) \<and> f \<notin> set (uploadedFiles s) \<and>
      toLowerCase (name f) \<noteq> ''pdf'' \<longrightarrow>
        f \<in> set files \<and>
        (type f = ''application/pdf'' \<or> endsWith (toLowerCase (name f)) ''.pdf'')) \<and>
   (g \<in> set files \<and> g \<notin> set (uploadedFiles s) \<and> toLowerCase (name g) \<noteq> ''pdf'' \<and>
      \<not> (type g = ''application/pdf'' \<or> endsWith (toLowerCase (name g)) ''.pdf'') \<longrightarrow>
        g \<notin> set (uploadedFiles (addFiles files s))) \<and>
   (files \<noteq> [] \<and>
      list_all (\<lambda>h. toLowerCase (name h) \<noteq> ''pdf'' \<and>
                    \<not> (type h = ''application/pdf'' \<or> endsWith (toLowerCase (name h)) ''.pdf'')) files \<longrightarrow>
        addFiles files s =
          s\<lparr>uploadStatus := Some \<lparr>status_kind = Error,
                                   message = ''Por favor, selecciona solo archivos PDF''\<rparr>\<rparr> \<and>
        uploadedFiles (addFiles files s) = uploadedFiles s) \<and>
   (uploadFiles s = (s', Some req) \<longrightarrow> map snd (up_form req) = uploadedFiles s)"
proof -
  have valid: "\<And>h. addFiles_valid h \<longleftrightarrow>
      (type h = ''application/pdf'' \<or> endsWith (toLowerCase (name h)) ''.pdf'') \<or>
      toLowerCase (name h) = ''pdf''"
    by (simp add: addFiles_valid_iff handleDrop_valid_def)
  have accept: "f \<in> set (uploadedFiles (addFiles files s)) \<and> f \<notin> set (uploadedFiles s) \<and>
      toLowerCase (name f) \<noteq> ''pdf'' \<longrightarrow>
        f \<in> set files \<and>
        (type f = ''application/pdf'' \<or> endsWith (toLowerCase (name f)) ''.pdf'')"
    using addFiles_accepts [of f files s] valid [of f] by blast
  have reject: "g \<in> set files \<and> g \<notin> set (uploadedFiles s) \<and> toLowerCase (name g) \<noteq> ''pdf'' \<and>
      \<not> (type g = ''application/pdf'' \<or> endsWith (toLowerCase (name g)) ''.pdf'') \<longrightarrow>
        g \<notin> set (uploadedFiles (addFiles files s))"
    using addFiles_accepts [of g files s] valid [of g] by blast
  have none: "files \<noteq> [] \<and>
      list_all (\<lambda>h. toLowerCase (name h) \<noteq> ''pdf'' \<and>
                    \<not> (type h = ''application/pdf'' \<or> endsWith (toLowerCase (name h)) ''.pdf'')) files \<longrightarrow>
        addFiles files s =
          s\<lparr>uploadStatus := Some \<lparr>status_kind = Error,
                                   message = ''Por favor, selecciona solo archivos PDF''\<rparr>\<rparr> \<and>
        uploadedFiles (addFiles files s) = uploadedFiles s"
  proof
    assume a: "files \<noteq> [] \<and>
      list_all (\<lambda>h. toLowerCase (name h) \<noteq> ''pdf'' \<and>
                    \<not> (type h = ''application/pdf'' \<or> endsWith (toLowerCase (name h)) ''.pdf'')) files"
    then have "\<forall>h \<in> set files. \<not> addFiles_valid h"
      using valid by (auto simp: list_all_iff)
    then have "filter addFiles_valid files = []"
      by (simp add: filter_empty_conv)
    with a have eq: "addFiles files s =
          s\<lparr>uploadStatus := Some \<lparr>status_kind = Error,
                                   message = ''Por favor, selecciona solo archivos PDF''\<rparr>\<rparr>"
      by (simp add: addFiles_none_valid)
    then have "uploadedFiles (addFiles files s) = uploadedFiles s"
      by simp
    with eq show "addFiles files s =
          s\<lparr>uploadStatus := Some \<lparr>status_kind = Error,
                                   message = ''Por favor, selecciona solo archivos PDF''\<rparr>\<rparr> \<and>
        uploadedFiles (addFiles files s) = uploadedFiles s"
      by blast
  qed
  from accept reject none uploadFiles_form [of s s' req] show ?thesis
    by blast
qed

lemma exe_file_not_pdf:
  "toLowerCase (name exe_file) \<noteq> ''pdf'' \<and>
   \<not> (type exe_file = ''application/pdf'' \<or> endsWith (toLowerCase (name exe_file)) ''.pdf'')"
  by code_simp

lemma mixed_selection:
  "uploadedFiles (addFiles [pdf_a, exe_file, pdf_b] (dp_data None)) = [pdf_a, pdf_b]"
  by code_simp

theorem C1_only_pdf_accepted_witness:
  "uploadedFiles (addFiles [pdf_a, exe_file, pdf_b] (dp_data None)) = [pdf_a, pdf_b] \<and>
   toLowerCase (name pdf_b) \<noteq> ''pdf'' \<and>
   endsWith (toLowerCase (name pdf_b)) ''.pdf'' \<and>
   toLowerCase (name exe_file) \<noteq> ''pdf'' \<and>
   \<not> (type exe_file = ''application/pdf'' \<or> endsWith (toLowerCase (name exe_file)) ''.pdf'') \<and>
   addFiles [exe_file] dp_idle =
     dp_idle\<lparr>uploadStatus := Some \<lparr>status_kind = Error,
                                     message = ''Por favor, selecciona solo archivos PDF''\<rparr>\<rparr> \<and>
   uploadFiles dp_idle = (dp_component dp_busy, Some two_files_request) \<and>
   map snd (up_form two_files_request) = [pdf_a, pdf_b]"
proof -
  have b: "toLowerCase (name pdf_b) \<noteq> ''pdf''" "type pdf_b \<noteq> ''application/pdf''"
    by code_simp+
  have "pdf_b \<in> set (uploadedFiles (addFiles [pdf_a, exe_file, pdf_b] (dp_data None)))"
    unfolding mixed_selection by simp
  moreover have "pdf_b \<notin> set (uploadedFiles (dp_data None))"
    by (simp add: dp_data_def)
  moreover note b
  ultimately have accepted: "endsWith (toLowerCase (name pdf_b)) ''.pdf''"
    using C1_only_pdf_accepted [of pdf_b "[pdf_a, exe_file, pdf_b]" "dp_data None"]
    by blast
  have "[exe_file] \<noteq> []" and "list_all (\<lambda>h. toLowerCase (name h) \<noteq> ''pdf'' \<and>
        \<not> (type h = ''application/pdf'' \<or> endsWith (toLowerCase (name h)) ''.pdf'')) [exe_file]"
    using exe_file_not_pdf by simp_all
  with C1_only_pdf_accepted [of _ "[exe_file]" dp_idle]
  have refused: "addFiles [exe_file] dp_idle =
     dp_idle\<lparr>uploadStatus := Some \<lparr>status_kind = Error,
                                     message = ''Por favor, selecciona solo archivos PDF''\<rparr>\<rparr>"
    by blast
  from C1_only_pdf_accepted [of _ _ dp_idle _ "dp_component dp_busy" two_files_request] dp_idle_upload
  have form: "map snd (up_form two_files_request) = uploadedFiles dp_idle"
    by blast
  then have form': "map snd (up_form two_files_request) = [pdf_a, pdf_b]"
    by (simp add: dp_idle_def)
  from mixed_selection b(1) accepted exe_file_not_pdf refused dp_idle_upload form'
  show ?thesis by blast
qed

lemma addFiles_bare_name:
  "addFiles_valid \<lparr>name = ''PDF'', type = ''text/plain'', fsize = 3\<rparr> \<and>
   \<not> handleDrop_valid \<lparr>name = ''PDF'', type = ''text/plain'', fsize = 3\<rparr>"
  by code_simp

section \<open>Upload requests and responses\<close>

text \<open>
  The request of \<open>uploadFiles\<close>, for any pending list: the endpoint follows the number of
  files, and every file is appended under the field \<open>files\<close>.
\<close>

lemma uploadFiles_request:
  assumes "uploadFiles s = (s', Some req)"
  shows "up_url req = apiUrl s @ (if length (uploadedFiles s) = 1 then ''/upload'' else ''/upload/multiple'')"
    and "up_form req = map (\<lambda>f. (''files'', f)) (uploadedFiles s)"
  using assms by (auto simp: uploadFiles_def Let_def split: if_splits)

text \<open>
  Claim C2 says that an upload of exactly one pending file goes to \<open>/upload\<close> with the file
  under the form field \<open>file\<close>. The endpoint is as claimed, but the form has the file under
  \<open>files\<close> and has no field \<open>file\<close>: the component run on one selected file.
\<close>

theorem C2_single_upload_form_field:
  "addFiles [pdf_a] (dp_data None) = one_file_state \<and>
   uploadFiles one_file_state =
     (one_file_state\<lparr>uploading := True, uploadStatus := None\<rparr>, Some one_file_request) \<and>
   up_url one_file_request = ''/api/upload'' \<and>
   map fst (up_form one_file_request) = [''files''] \<and>
   map_of (up_form one_file_request) ''file'' = None"
  by code_simp

lemma tally_eq:
  "tally now rs (docs, sc, fc) =
     (docs @ map (to_document now) (filter success rs),
      sc + length (filter success rs),
      fc + length (filter (\<lambda>r. \<not> success r) rs))"
  by (induction rs arbitrary: docs sc fc) simp_all

text \<open>
  When the pending list does not hold exactly one file at the time the response is
  handled, an array of results is handled entry by entry: the successful entries are
  appended to \<open>processedDocuments\<close> in order, and the pending list is cleared exactly when
  no entry failed.
\<close>

lemma uploadFiles_then_array:
  assumes "length (uploadedFiles s) \<noteq> 1"
  shows "processedDocuments (uploadFiles_then now (Arr rs) s) =
           processedDocuments s @ map (to_document now) (filter success rs)"
    and "uploadedFiles (uploadFiles_then now (Arr rs) s) =
           (if list_all success rs then [] else uploadedFiles s)"
proof -
  have c: "count_results now s (Arr rs) =
      (map (to_document now) (filter success rs), length (filter success rs),
       length (filter (\<lambda>r. \<not> success r) rs))"
    using assms by (simp add: count_results_def tally_eq)
  show "processedDocuments (uploadFiles_then now (Arr rs) s) =
           processedDocuments s @ map (to_document now) (filter success rs)"
    by (simp add: uploadFiles_then_def c Let_def showStatus_def clearFiles_def)
  have "length (filter (\<lambda>r. \<not> success r) rs) = 0 \<longleftrightarrow> list_all success rs"
    by (auto simp: list_all_iff filter_empty_conv)
  then show "uploadedFiles (uploadFiles_then now (Arr rs) s) =
           (if list_all success rs then [] else uploadedFiles s)"
    by (simp add: uploadFiles_then_def c Let_def showStatus_def clearFiles_def)
qed

text \<open>
  Claim C5 says that every response of a multi-file upload is handled entry by entry. The
  branch is chosen by the length of the pending list when the response arrives, not by
  the endpoint that was used: two files are selected and uploaded to \<open>/upload/multiple\<close>,
  one is removed from the list while the request is in flight (its remove button is
  offered), and the response with two successful entries is then read as a single result
  object. Nothing is appended to \<open>processedDocuments\<close>, the error status is shown and the
  pending list is kept.
\<close>

theorem C5_response_after_removal:
  "dp_run (take 2 removal_events) (dp_mounted None) = Some dp_busy \<and>
   dp_pending dp_busy = [two_files_request] \<and>
   up_url two_files_request = ''/api/upload/multiple'' \<and>
   dp_offered UploadFiles dp_idle \<and>
   dp_offered (RemoveFile 0) (dp_component dp_busy) \<and>
   dp_run removal_events (dp_mounted None) = Some removal_result \<and>
   processedDocuments (dp_component removal_result) = [] \<and>
   uploadedFiles (dp_component removal_result) = [pdf_b] \<and>
   map_option status_kind (uploadStatus (dp_component removal_result)) = Some Error"
  by code_simp

lemma response_without_removal:
  "map_option (\<lambda>y. (processedDocuments (dp_component y), uploadedFiles (dp_component y)))
     (dp_run [HandleFileSelect [pdf_a, pdf_b], UploadFiles, UploadResolved 9 (Arr [stored_a, stored_b])]
        (dp_mounted None)) =
   Some ([\<lparr>doc_name = ''a.pdf'', fileId = Some ''550e8400'', processedAt = Str ''2024-01-15T10:30:00''\<rparr>,
          \<lparr>doc_name = ''B.PDF'', fileId = Some ''6fa459ea'', processedAt = Str ''2024-01-15T10:30:01''\<rparr>],
         [])"
  by code_simp

end
